theory Spec2Isabelle
  imports Main
begin

section \<open>Data model\<close>

text \<open>
  The relational store of the wishlist API (app/models): four tables, each a list of rows
  in insertion order. Prices are \<open>Numeric(10, 2)\<close> columns, kept as an integer number of
  hundredths. Timestamps are whole seconds, as read from the clock (\<open>datetime.utcnow\<close>) by
  the column defaults.
\<close>

type_synonym timestamp = int
type_synonym money = int

record user =
  u_id :: nat
  u_email :: string
  u_hashed_password :: string
  u_created_at :: timestamp
  u_updated_at :: timestamp

record wishlist_collection =
  c_id :: nat
  c_user_id :: nat
  c_name :: string
  c_description :: "string option"
  c_color :: "string option"
  c_is_default :: bool
  c_created_at :: timestamp
  c_updated_at :: timestamp

record wishlist_item =
  i_id :: nat
  i_user_id :: nat
  i_collection_id :: nat
  i_title :: string
  i_product_url :: "string option"
  i_initial_price :: money
  i_current_price :: money
  i_currency :: string
  i_created_at :: timestamp
  i_updated_at :: timestamp

record price_history =
  ph_id :: nat
  ph_wishlist_item_id :: nat
  ph_price :: money
  ph_checked_at :: timestamp

record db =
  users :: "user list"
  wishlist_collections :: "wishlist_collection list"
  wishlist_items :: "wishlist_item list"
  price_history_rows :: "price_history list"

definition empty_db :: db where
  "empty_db = \<lparr>users = [], wishlist_collections = [], wishlist_items = [],
               price_history_rows = []\<rparr>"

text \<open>
  The exceptions of app/exceptions.py, the framework's \<open>HTTPException\<close> with its status,
  the storage layer's \<open>IntegrityError\<close> (a NOT NULL or UNIQUE violation at commit) and
  passlib's \<open>UnknownHashError\<close>. \<open>status_code\<close> is the status the exception handlers
  registered in app/main.py answer with.
\<close>

datatype error =
    AuthenticationError
  | AuthorizationError
  | ResourceNotFoundError
  | ConflictError
  | ValidationError
  | HTTPException nat
  | IntegrityError
  | UnknownHashError

fun status_code :: "error \<Rightarrow> nat" where
  "status_code AuthenticationError = 401"
| "status_code AuthorizationError = 403"
| "status_code ResourceNotFoundError = 404"
| "status_code ConflictError = 409"
| "status_code ValidationError = 422"
| "status_code (HTTPException c) = c"
| "status_code IntegrityError = 500"
| "status_code UnknownHashError = 500"

text \<open>
  A field of an update payload (\<open>model_dump(exclude_unset=True)\<close>): left out of the
  request body, or given a value, which for an \<open>Optional\<close> field may be \<open>null\<close>.
\<close>

datatype 'a field = Unset | Given 'a

text \<open>
  An integer primary key is assigned by the store as one more than the largest key of the
  table (SQLite's rowid rule), so a key of a deleted last row can be handed out again.
\<close>

definition next_id :: "nat list \<Rightarrow> nat" where
  "next_id ks = Suc (foldr max ks 0)"

section \<open>Collections (app/routes/wishlist\_collections.py)\<close>

record collection_create =
  cc_name :: string
  cc_description :: "string option"
  cc_color :: "string option"
  cc_is_default :: "bool option"

record collection_update =
  cu_name :: "string option field"
  cu_description :: "string option field"
  cu_color :: "string option field"
  cu_is_default :: "bool option field"

text \<open>\<open>select(WishlistCollection).where(id == collection_id, user_id == current_user.id)\<close>\<close>

definition owned_collection :: "db \<Rightarrow> nat \<Rightarrow> nat \<Rightarrow> wishlist_collection option" where
  "owned_collection s uid cid =
     find (\<lambda>c. c_id c = cid \<and> c_user_id c = uid) (wishlist_collections s)"

text \<open>
  \<open>update(WishlistCollection).where(user_id == uid, is_default == True [, id != keep])
  .values(is_default=False)\<close>; the column's \<open>onupdate\<close> hook stamps \<open>updated_at\<close>.
\<close>

definition unset_defaults ::
  "nat \<Rightarrow> nat option \<Rightarrow> timestamp \<Rightarrow> wishlist_collection list \<Rightarrow> wishlist_collection list" where
  "unset_defaults uid keep now cs =
     map (\<lambda>c. if c_user_id c = uid \<and> c_is_default c \<and> Some (c_id c) \<noteq> keep
               then c\<lparr>c_is_default := False, c_updated_at := now\<rparr> else c) cs"

definition create_collection ::
  "db \<Rightarrow> user \<Rightarrow> collection_create \<Rightarrow> timestamp \<Rightarrow> (error + wishlist_collection) \<times> db" where
  "create_collection s current_user d now =
     (case find (\<lambda>c. c_user_id c = u_id current_user \<and> c_name c = cc_name d)
                (wishlist_collections s) of
        Some existing \<Rightarrow> (Inl ConflictError, s)
      | None \<Rightarrow>
          let cs = (if cc_is_default d = Some True
                    then unset_defaults (u_id current_user) None now (wishlist_collections s)
                    else wishlist_collections s);
              collection = \<lparr>c_id = next_id (map c_id cs),
                            c_user_id = u_id current_user,
                            c_name = cc_name d,
                            c_description = cc_description d,
                            c_color = cc_color d,
                            c_is_default = (cc_is_default d = Some True),
                            c_created_at = now,
                            c_updated_at = now\<rparr>
          in (Inr collection, s\<lparr>wishlist_collections := cs @ [collection]\<rparr>))"

text \<open>The relationship \<open>WishlistCollection.items\<close>: the items whose collection is this one.\<close>

definition collection_items :: "db \<Rightarrow> nat \<Rightarrow> wishlist_item list" where
  "collection_items s cid = filter (\<lambda>i. i_collection_id i = cid) (wishlist_items s)"

definition get_collection ::
  "db \<Rightarrow> user \<Rightarrow> nat \<Rightarrow> error + (wishlist_collection \<times> wishlist_item list)" where
  "get_collection s current_user cid =
     (case owned_collection s (u_id current_user) cid of
        None \<Rightarrow> Inl ResourceNotFoundError
      | Some collection \<Rightarrow> Inr (collection, collection_items s cid))"

text \<open>
  \<open>setattr\<close> of every field the payload gives. A \<open>null\<close> for the NOT NULL columns
  \<open>name\<close> and \<open>is_default\<close> is refused by the store at commit (\<open>None\<close> here).
\<close>

definition apply_collection_update ::
  "collection_update \<Rightarrow> wishlist_collection \<Rightarrow> wishlist_collection option" where
  "apply_collection_update d c =
     (if cu_name d = Given None \<or> cu_is_default d = Given None then None
      else Some (c\<lparr>c_name := (case cu_name d of Given (Some n) \<Rightarrow> n | _ \<Rightarrow> c_name c),
                   c_description := (case cu_description d of Given v \<Rightarrow> v | Unset \<Rightarrow> c_description c),
                   c_color := (case cu_color d of Given v \<Rightarrow> v | Unset \<Rightarrow> c_color c),
                   c_is_default := (case cu_is_default d of Given (Some b) \<Rightarrow> b | _ \<Rightarrow> c_is_default c)\<rparr>))"

text \<open>The ORM writes a row, and stamps \<open>updated_at\<close>, only when an attribute changed.\<close>

definition flush_collection ::
  "timestamp \<Rightarrow> wishlist_collection \<Rightarrow> wishlist_collection \<Rightarrow> wishlist_collection" where
  "flush_collection now old new = (if new = old then old else new\<lparr>c_updated_at := now\<rparr>)"

definition update_collection ::
  "db \<Rightarrow> user \<Rightarrow> nat \<Rightarrow> collection_update \<Rightarrow> timestamp \<Rightarrow> (error + wishlist_collection) \<times> db" where
  "update_collection s current_user cid d now =
     (case owned_collection s (u_id current_user) cid of
        None \<Rightarrow> (Inl ResourceNotFoundError, s)
      | Some collection \<Rightarrow>
          if (case cu_name d of
                Given (Some n) \<Rightarrow> n \<noteq> [] \<and> n \<noteq> c_name collection \<and>
                   find (\<lambda>c. c_user_id c = u_id current_user \<and> c_name c = n \<and> c_id c \<noteq> cid)
                        (wishlist_collections s) \<noteq> None
              | _ \<Rightarrow> False)
          then (Inl ConflictError, s)
          else
            let cs = (if cu_is_default d = Given (Some True)
                      then unset_defaults (u_id current_user) (Some cid) now (wishlist_collections s)
                      else wishlist_collections s)
            in (case apply_collection_update d collection of
                  None \<Rightarrow> (Inl IntegrityError, s)
                | Some updated \<Rightarrow>
                    let c' = flush_collection now collection updated
                    in (Inr c', s\<lparr>wishlist_collections :=
                                   map (\<lambda>c. if c_id c = cid then c' else c) cs\<rparr>)))"

text \<open>
  \<open>db.delete(collection)\<close> follows the relationships declared with
  \<open>cascade="all, delete-orphan"\<close>: the collection's items (WishlistCollection.items) and
  each such item's price history (WishlistItem.price\_history) go with it.
\<close>

definition cascade_delete_collection :: "nat \<Rightarrow> db \<Rightarrow> db" where
  "cascade_delete_collection cid s =
     (let doomed = map i_id (collection_items s cid)
      in s\<lparr>wishlist_collections := filter (\<lambda>c. c_id c \<noteq> cid) (wishlist_collections s),
           wishlist_items := filter (\<lambda>i. i_collection_id i \<noteq> cid) (wishlist_items s),
           price_history_rows :=
             filter (\<lambda>p. ph_wishlist_item_id p \<notin> set doomed) (price_history_rows s)\<rparr>)"

definition collection_count :: "db \<Rightarrow> nat \<Rightarrow> nat" where
  "collection_count s uid = length (filter (\<lambda>c. c_user_id c = uid) (wishlist_collections s))"

definition delete_collection :: "db \<Rightarrow> user \<Rightarrow> nat \<Rightarrow> (error + unit) \<times> db" where
  "delete_collection s current_user cid =
     (case owned_collection s (u_id current_user) cid of
        None \<Rightarrow> (Inl ResourceNotFoundError, s)
      | Some collection \<Rightarrow>
          if collection_count s (u_id current_user) \<le> 1 then (Inl ConflictError, s)
          else (Inr (), cascade_delete_collection cid s))"

definition set_default_collection ::
  "db \<Rightarrow> user \<Rightarrow> nat \<Rightarrow> timestamp \<Rightarrow> (error + wishlist_collection) \<times> db" where
  "set_default_collection s current_user cid now =
     (case owned_collection s (u_id current_user) cid of
        None \<Rightarrow> (Inl ResourceNotFoundError, s)
      | Some collection \<Rightarrow>
          let cs = unset_defaults (u_id current_user) None now (wishlist_collections s);
              c' = collection\<lparr>c_is_default := True, c_updated_at := now\<rparr>
          in (Inr c', s\<lparr>wishlist_collections := map (\<lambda>c. if c_id c = cid then c' else c) cs\<rparr>))"

section \<open>Wishlist items (app/routes/wishlist.py)\<close>

record item_create =
  ic_title :: string
  ic_product_url :: "string option"
  ic_initial_price :: money
  ic_currency :: string
  ic_collection_id :: nat

record item_update =
  iu_title :: "string option field"
  iu_product_url :: "string option field"
  iu_current_price :: "money option field"
  iu_collection_id :: "nat option field"

text \<open>\<open>select(WishlistItem).where(WishlistItem.id == item_id)\<close>\<close>

definition find_item :: "db \<Rightarrow> nat \<Rightarrow> wishlist_item option" where
  "find_item s iid = find (\<lambda>i. i_id i = iid) (wishlist_items s)"

text \<open>
  The item is committed first, at time \<open>now\<close>; the seed price entry is committed after
  it, \<open>dt\<close> seconds later, with the price read back from the stored item.
\<close>

definition create_wishlist_item ::
  "db \<Rightarrow> user \<Rightarrow> item_create \<Rightarrow> timestamp \<Rightarrow> nat \<Rightarrow> (error + wishlist_item) \<times> db" where
  "create_wishlist_item s current_user d now dt =
     (case owned_collection s (u_id current_user) (ic_collection_id d) of
        None \<Rightarrow> (Inl ResourceNotFoundError, s)
      | Some collection \<Rightarrow>
          let new_item = \<lparr>i_id = next_id (map i_id (wishlist_items s)),
                          i_user_id = u_id current_user,
                          i_collection_id = ic_collection_id d,
                          i_title = ic_title d,
                          i_product_url = ic_product_url d,
                          i_initial_price = ic_initial_price d,
                          i_current_price = ic_initial_price d,
                          i_currency = (if ic_currency d = [] then ''USD'' else ic_currency d),
                          i_created_at = now,
                          i_updated_at = now\<rparr>;
              price_entry = \<lparr>ph_id = next_id (map ph_id (price_history_rows s)),
                             ph_wishlist_item_id = i_id new_item,
                             ph_price = i_initial_price new_item,
                             ph_checked_at = now + int dt\<rparr>
          in (Inr new_item,
              s\<lparr>wishlist_items := wishlist_items s @ [new_item],
                price_history_rows := price_history_rows s @ [price_entry]\<rparr>))"

definition get_wishlist_item :: "db \<Rightarrow> user \<Rightarrow> nat \<Rightarrow> error + wishlist_item" where
  "get_wishlist_item s current_user iid =
     (case find_item s iid of
        None \<Rightarrow> Inl ResourceNotFoundError
      | Some item \<Rightarrow>
          if i_user_id item \<noteq> u_id current_user then Inl AuthorizationError
          else Inr item)"

text \<open>
  \<open>setattr\<close> of every field the payload gives; the payload has no \<open>initial_price\<close> and
  no \<open>currency\<close>. A \<open>null\<close> for the NOT NULL columns \<open>title\<close>, \<open>current_price\<close> and
  \<open>collection_id\<close> is refused by the store at commit (\<open>None\<close> here).
\<close>

definition apply_item_update :: "item_update \<Rightarrow> wishlist_item \<Rightarrow> wishlist_item option" where
  "apply_item_update d item =
     (if iu_title d = Given None \<or> iu_current_price d = Given None \<or> iu_collection_id d = Given None
      then None
      else Some (item\<lparr>i_title := (case iu_title d of Given (Some t) \<Rightarrow> t | _ \<Rightarrow> i_title item),
                      i_product_url := (case iu_product_url d of Given v \<Rightarrow> v | Unset \<Rightarrow> i_product_url item),
                      i_current_price := (case iu_current_price d of Given (Some p) \<Rightarrow> p | _ \<Rightarrow> i_current_price item),
                      i_collection_id := (case iu_collection_id d of Given (Some c) \<Rightarrow> c | _ \<Rightarrow> i_collection_id item)\<rparr>))"

definition flush_item :: "timestamp \<Rightarrow> wishlist_item \<Rightarrow> wishlist_item \<Rightarrow> wishlist_item" where
  "flush_item now old new = (if new = old then old else new\<lparr>i_updated_at := now\<rparr>)"

definition update_wishlist_item ::
  "db \<Rightarrow> user \<Rightarrow> nat \<Rightarrow> item_update \<Rightarrow> timestamp \<Rightarrow> (error + wishlist_item) \<times> db" where
  "update_wishlist_item s current_user iid d now =
     (case find_item s iid of
        None \<Rightarrow> (Inl ResourceNotFoundError, s)
      | Some item \<Rightarrow>
          if i_user_id item \<noteq> u_id current_user then (Inl AuthorizationError, s)
          else if (case iu_collection_id d of
                     Given (Some c) \<Rightarrow> c \<noteq> 0 \<and> c \<noteq> i_collection_id item \<and>
                        owned_collection s (u_id current_user) c = None
                   | _ \<Rightarrow> False)
          then (Inl ResourceNotFoundError, s)
          else (case apply_item_update d item of
                  None \<Rightarrow> (Inl IntegrityError, s)
                | Some updated \<Rightarrow>
                    let item' = flush_item now item updated
                    in (Inr item', s\<lparr>wishlist_items :=
                                      map (\<lambda>i. if i_id i = iid then item' else i) (wishlist_items s)\<rparr>)))"

text \<open>\<open>db.delete(item)\<close> takes the item's price history with it (cascade).\<close>

definition delete_wishlist_item :: "db \<Rightarrow> user \<Rightarrow> nat \<Rightarrow> (error + unit) \<times> db" where
  "delete_wishlist_item s current_user iid =
     (case find_item s iid of
        None \<Rightarrow> (Inl ResourceNotFoundError, s)
      | Some item \<Rightarrow>
          if i_user_id item \<noteq> u_id current_user then (Inl AuthorizationError, s)
          else (Inr (), s\<lparr>wishlist_items := filter (\<lambda>i. i_id i \<noteq> iid) (wishlist_items s),
                           price_history_rows :=
                             filter (\<lambda>p. ph_wishlist_item_id p \<noteq> iid) (price_history_rows s)\<rparr>))"

text \<open>\<open>select(PriceHistory).where(wishlist_item_id == item_id).order_by(desc(checked_at))\<close>\<close>

definition item_price_history :: "db \<Rightarrow> nat \<Rightarrow> price_history list" where
  "item_price_history s iid =
     sort_key (\<lambda>p. - ph_checked_at p)
       (filter (\<lambda>p. ph_wishlist_item_id p = iid) (price_history_rows s))"

definition get_item_price_history ::
  "db \<Rightarrow> user \<Rightarrow> nat \<Rightarrow> error + (money \<times> timestamp) list" where
  "get_item_price_history s current_user iid =
     (case find_item s iid of
        None \<Rightarrow> Inl ResourceNotFoundError
      | Some item \<Rightarrow>
          if i_user_id item \<noteq> u_id current_user then Inl AuthorizationError
          else Inr (map (\<lambda>p. (ph_price p, ph_checked_at p)) (item_price_history s iid)))"

section \<open>Price history (app/routes/price\_history.py)\<close>

text \<open>
  Both handlers run their body inside \<open>try\<close> and close it with
  \<open>except HTTPException: raise\<close> and \<open>except Exception: raise HTTPException(500)\<close>.
  The exceptions of app/exceptions.py derive from \<open>Exception\<close>, not from
  \<open>HTTPException\<close>, so the second clause is the one that receives them.
\<close>

fun except_clauses :: "error + 'a \<Rightarrow> error + 'a" where
  "except_clauses (Inl (HTTPException c)) = Inl (HTTPException c)"
| "except_clauses (Inl e) = Inl (HTTPException 500)"
| "except_clauses (Inr v) = Inr v"

text \<open>\<open>select(WishlistItem).where(id == item_id, user_id == current_user.id)\<close>\<close>

definition owned_item :: "db \<Rightarrow> nat \<Rightarrow> nat \<Rightarrow> wishlist_item option" where
  "owned_item s uid iid = find (\<lambda>i. i_id i = iid \<and> i_user_id i = uid) (wishlist_items s)"

definition get_price_history_body :: "db \<Rightarrow> user \<Rightarrow> nat \<Rightarrow> error + price_history list" where
  "get_price_history_body s current_user iid =
     (case owned_item s (u_id current_user) iid of
        None \<Rightarrow> Inl ResourceNotFoundError
      | Some item \<Rightarrow> Inr (item_price_history s iid))"

definition get_price_history :: "db \<Rightarrow> user \<Rightarrow> nat \<Rightarrow> error + price_history list" where
  "get_price_history s current_user iid =
     except_clauses (get_price_history_body s current_user iid)"

definition create_price_history_entry_body ::
  "db \<Rightarrow> user \<Rightarrow> nat \<Rightarrow> money \<Rightarrow> timestamp \<Rightarrow> (error + price_history) \<times> db" where
  "create_price_history_entry_body s current_user iid price now =
     (case owned_item s (u_id current_user) iid of
        None \<Rightarrow> (Inl ResourceNotFoundError, s)
      | Some item \<Rightarrow>
          let new_price_history = \<lparr>ph_id = next_id (map ph_id (price_history_rows s)),
                                   ph_wishlist_item_id = iid,
                                   ph_price = price,
                                   ph_checked_at = now\<rparr>
          in (Inr new_price_history,
              s\<lparr>price_history_rows := price_history_rows s @ [new_price_history]\<rparr>))"

text \<open>On an exception the handler rolls the session back: the store is as it was.\<close>

definition create_price_history_entry ::
  "db \<Rightarrow> user \<Rightarrow> nat \<Rightarrow> money \<Rightarrow> timestamp \<Rightarrow> (error + price_history) \<times> db" where
  "create_price_history_entry s current_user iid price now =
     (case create_price_history_entry_body s current_user iid price now of
        (Inl e, s') \<Rightarrow> (except_clauses (Inl e), s)
      | (Inr v, s') \<Rightarrow> (Inr v, s'))"

section \<open>Credentials (app/auth/dependencies.py)\<close>

definition is_letter :: "char \<Rightarrow> bool" where
  "is_letter c = (let n = (of_char c :: nat) in (65 \<le> n \<and> n \<le> 90) \<or> (97 \<le> n \<and> n \<le> 122))"

definition is_digit :: "char \<Rightarrow> bool" where
  "is_digit c = (let n = (of_char c :: nat) in 48 \<le> n \<and> n \<le> 57)"

definition get_password_validation_errors :: "string \<Rightarrow> string list" where
  "get_password_validation_errors password =
     (if length password < 8 then [''Password must be at least 8 characters long''] else []) @
     (if length password > 100 then [''Password must be at most 100 characters long''] else []) @
     (if \<not> list_ex is_letter password then [''Password must contain at least one letter''] else []) @
     (if \<not> list_ex is_digit password then [''Password must contain at least one number''] else [])"

text \<open>
  \<open>pwd_context = CryptContext(schemes=["bcrypt"])\<close>. The context first identifies the
  scheme of the stored hash by its prefix and raises \<open>UnknownHashError\<close> when no
  configured scheme claims it; only an identified hash reaches the bcrypt handler, which is
  the parameter \<open>bcrypt_verify\<close> here (a one-way primitive outside this program).
\<close>

definition bcrypt_identify :: "string \<Rightarrow> bool" where
  "bcrypt_identify h =
     (take 4 h \<in> {''$2a$'', ''$2b$'', ''$2x$'', ''$2y$''} \<or> take 3 h = ''$2$'')"

definition pwd_context_verify ::
  "(string \<Rightarrow> string \<Rightarrow> error + bool) \<Rightarrow> string \<Rightarrow> string \<Rightarrow> error + bool" where
  "pwd_context_verify bcrypt_verify secret h =
     (if \<not> bcrypt_identify h then Inl UnknownHashError else bcrypt_verify secret h)"

definition verify_password ::
  "(string \<Rightarrow> string \<Rightarrow> error + bool) \<Rightarrow> string \<Rightarrow> string \<Rightarrow> error + bool" where
  "verify_password bcrypt_verify plain_password hashed_password =
     pwd_context_verify bcrypt_verify plain_password hashed_password"

section \<open>Session tokens (app/auth/jwt\_handler.py)\<close>

text \<open>
  A token is either a string that is no JWS at all, or a set of claims with a signature.
  The signing primitive (HS256 under the process-wide secret) is the parameter \<open>mac\<close>.
  \<open>jwt_decode\<close> follows \<open>jose.jwt.decode\<close> with its default options, for the claims
  this program issues: the signature is recomputed, \<open>exp\<close> and \<open>iat\<close> must be integers,
  \<open>sub\<close> a string, and a token whose \<open>exp\<close> lies before the current second is refused.
  Every refusal is a \<open>JWTError\<close>, which \<open>verify_token\<close> turns into \<open>None\<close>.
\<close>

datatype jval = JStr string | JInt int

type_synonym claims = "(string \<times> jval) list"

datatype token = Malformed string | JWS claims nat

type_synonym signer = "string \<Rightarrow> claims \<Rightarrow> nat"

definition dict_update :: "claims \<Rightarrow> string \<Rightarrow> jval \<Rightarrow> claims" where
  "dict_update d k v = (k, v) # filter (\<lambda>kv. fst kv \<noteq> k) d"

definition jwt_encode :: "signer \<Rightarrow> string \<Rightarrow> claims \<Rightarrow> token" where
  "jwt_encode mac key cl = JWS cl (mac key cl)"

definition signature_valid :: "signer \<Rightarrow> string \<Rightarrow> token \<Rightarrow> bool" where
  "signature_valid mac key t = (case t of Malformed _ \<Rightarrow> False | JWS cl sg \<Rightarrow> sg = mac key cl)"

definition claims_well_typed :: "claims \<Rightarrow> bool" where
  "claims_well_typed cl =
     ((case map_of cl ''exp'' of Some (JStr _) \<Rightarrow> False | _ \<Rightarrow> True) \<and>
      (case map_of cl ''iat'' of Some (JStr _) \<Rightarrow> False | _ \<Rightarrow> True) \<and>
      (case map_of cl ''sub'' of Some (JInt _) \<Rightarrow> False | _ \<Rightarrow> True))"

definition claims_expired :: "timestamp \<Rightarrow> claims \<Rightarrow> bool" where
  "claims_expired now cl = (case map_of cl ''exp'' of Some (JInt e) \<Rightarrow> e < now | _ \<Rightarrow> False)"

definition jwt_decode :: "signer \<Rightarrow> string \<Rightarrow> timestamp \<Rightarrow> token \<Rightarrow> claims option" where
  "jwt_decode mac key now t =
     (case t of
        Malformed _ \<Rightarrow> None
      | JWS cl sg \<Rightarrow>
          if \<not> signature_valid mac key t then None
          else if \<not> claims_well_typed cl then None
          else if claims_expired now cl then None
          else Some cl)"

text \<open>
  \<open>expires_delta\<close> is in seconds; a zero \<open>timedelta\<close> is falsy and gives the default.
  \<open>minutes\<close> is ACCESS\_TOKEN\_EXPIRE\_MINUTES. The clock is read twice.
\<close>

definition create_access_token ::
  "signer \<Rightarrow> string \<Rightarrow> int \<Rightarrow> timestamp \<Rightarrow> timestamp \<Rightarrow> claims \<Rightarrow> int option \<Rightarrow> token" where
  "create_access_token mac key minutes now1 now2 data expires_delta =
     (let expire = (case expires_delta of
                      Some d \<Rightarrow> if d \<noteq> 0 then now1 + d else now1 + 60 * minutes
                    | None \<Rightarrow> now1 + 60 * minutes);
          to_encode = dict_update (dict_update data ''exp'' (JInt expire)) ''iat'' (JInt now2)
      in jwt_encode mac key to_encode)"

definition verify_token :: "signer \<Rightarrow> string \<Rightarrow> timestamp \<Rightarrow> token \<Rightarrow> claims option" where
  "verify_token mac key now t = jwt_decode mac key now t"

definition decode_token :: "signer \<Rightarrow> string \<Rightarrow> timestamp \<Rightarrow> token \<Rightarrow> string option" where
  "decode_token mac key now t =
     (case verify_token mac key now t of
        None \<Rightarrow> None
      | Some payload \<Rightarrow> (case map_of payload ''sub'' of Some (JStr sub) \<Rightarrow> Some sub | _ \<Rightarrow> None))"

text \<open>
  \<open>datetime.utcnow().timestamp()\<close> reads the naive UTC time as local time, so the
  timestamp compared with \<open>exp\<close> is off by the local zone's offset \<open>tz\<close> from UTC.
\<close>

definition is_token_expired :: "signer \<Rightarrow> string \<Rightarrow> timestamp \<Rightarrow> int \<Rightarrow> token \<Rightarrow> bool" where
  "is_token_expired mac key now tz t =
     (case verify_token mac key now t of
        None \<Rightarrow> True
      | Some payload \<Rightarrow>
          (case map_of payload ''exp'' of
             None \<Rightarrow> True
           | Some (JInt exp_timestamp) \<Rightarrow> now - tz > exp_timestamp
           | Some (JStr _) \<Rightarrow> True))"

section \<open>Authorization guard (app/auth/dependencies.py)\<close>





section \<open>Registration and login (app/routes/auth.py)\<close>

text \<open>\<open>hash_password\<close> is the salted one-way hash, a parameter of the handlers.\<close>

definition register_user ::
  "(string \<Rightarrow> string) \<Rightarrow> db \<Rightarrow> string \<Rightarrow> string \<Rightarrow> timestamp \<Rightarrow> (error + user) \<times> db" where
  "register_user hash_password s email password now =
     (if get_password_validation_errors password \<noteq> [] then (Inl ValidationError, s)
      else (case find (\<lambda>u. u_email u = email) (users s) of
              Some existing_user \<Rightarrow> (Inl ConflictError, s)
            | None \<Rightarrow>
                let new_user = \<lparr>u_id = next_id (map u_id (users s)),
                                u_email = email,
                                u_hashed_password = hash_password password,
                                u_created_at = now,
                                u_updated_at = now\<rparr>
                in (Inr new_user, s\<lparr>users := users s @ [new_user]\<rparr>)))"

text \<open>
  The body of \<open>login_user\<close> runs inside \<open>try\<close>, closed by
  \<open>except AuthenticationError: raise\<close> and \<open>except Exception: raise HTTPException(500)\<close>.
\<close>

definition login_user ::
  "(string \<Rightarrow> string \<Rightarrow> error + bool) \<Rightarrow> signer \<Rightarrow> string \<Rightarrow> int \<Rightarrow> db \<Rightarrow> string \<Rightarrow> string
     \<Rightarrow> timestamp \<Rightarrow> timestamp \<Rightarrow> error + (token \<times> int)" where
  "login_user bcrypt_verify mac key minutes s email password now1 now2 =
     (case find (\<lambda>u. u_email u = email) (users s) of
        None \<Rightarrow> Inl AuthenticationError
      | Some u \<Rightarrow>
          (case verify_password bcrypt_verify password (u_hashed_password u) of
             Inl AuthenticationError \<Rightarrow> Inl AuthenticationError
           | Inl e \<Rightarrow> Inl (HTTPException 500)
           | Inr False \<Rightarrow> Inl AuthenticationError
           | Inr True \<Rightarrow>
               Inr (create_access_token mac key minutes now1 now2 [(''sub'', JStr (u_email u))] None,
                    minutes * 60)))"

section \<open>Requests that change the store\<close>

text \<open>
  Every endpoint that writes, with the user the guard resolved for it; \<open>handle\<close> gives
  the store after the request, whatever the response was.
\<close>

datatype request =
    Register string string
  | CreateCollection user collection_create
  | UpdateCollection user nat collection_update
  | DeleteCollection user nat
  | SetDefault user nat
  | CreateItem user item_create nat
  | UpdateItem user nat item_update
  | DeleteItem user nat
  | CreatePriceHistory user nat money

fun handle :: "(string \<Rightarrow> string) \<Rightarrow> db \<Rightarrow> timestamp \<Rightarrow> request \<Rightarrow> db" where
  "handle hp s now (Register email password) = snd (register_user hp s email password now)"
| "handle hp s now (CreateCollection u d) = snd (create_collection s u d now)"
| "handle hp s now (UpdateCollection u cid d) = snd (update_collection s u cid d now)"
| "handle hp s now (DeleteCollection u cid) = snd (delete_collection s u cid)"
| "handle hp s now (SetDefault u cid) = snd (set_default_collection s u cid now)"
| "handle hp s now (CreateItem u d dt) = snd (create_wishlist_item s u d now dt)"
| "handle hp s now (UpdateItem u iid d) = snd (update_wishlist_item s u iid d now)"
| "handle hp s now (DeleteItem u iid) = snd (delete_wishlist_item s u iid)"
| "handle hp s now (CreatePriceHistory u iid p) = snd (create_price_history_entry s u iid p now)"

section \<open>Invariants of the store\<close>

text \<open>
  What the store's constraints and the cascades keep true: primary keys are unique, and
  every price-history row belongs to an item that exists.
\<close>

definition wf_db :: "db \<Rightarrow> bool" where
  "wf_db s =
     (distinct (map c_id (wishlist_collections s)) \<and>
      distinct (map i_id (wishlist_items s)) \<and>
      (\<forall>p \<in> set (price_history_rows s). ph_wishlist_item_id p \<in> i_id ` set (wishlist_items s)))"

text \<open>The collections of a user that carry the default flag, and all collections of a user.\<close>

definition default_collections :: "db \<Rightarrow> nat \<Rightarrow> wishlist_collection list" where
  "default_collections s uid =
     filter (\<lambda>c. c_user_id c = uid \<and> c_is_default c) (wishlist_collections s)"

definition collections_of :: "db \<Rightarrow> nat \<Rightarrow> wishlist_collection list" where
  "collections_of s uid = filter (\<lambda>c. c_user_id c = uid) (wishlist_collections s)"

text \<open>The price-history rows of one item, in table order.\<close>

definition entries_of :: "db \<Rightarrow> nat \<Rightarrow> price_history list" where
  "entries_of s iid = filter (\<lambda>p. ph_wishlist_item_id p = iid) (price_history_rows s)"




definition user_by_email :: "db \<Rightarrow> string \<Rightarrow> user option" where
  "user_by_email s email = find (\<lambda>u. u_email u = email) (users s)"

text \<open>A signing function for the examples; any function serves.\<close>

definition sample_mac :: signer where
  "sample_mac key cl = length key + length cl"

section \<open>Sample data\<close>

text \<open>
  Two registered users. Alice owns the collections 1 ("Gifts", her default) and 2 ("Books")
  and the item 1 in collection 1, with its seed price entry; Bob owns collection 3 and
  item 2 in it.
\<close>

definition alice :: user where
  "alice = \<lparr>u_id = 1, u_email = ''alice@example.com'', u_hashed_password = ''$2b$12$aaaa'',
            u_created_at = 100, u_updated_at = 100\<rparr>"

definition bob :: user where
  "bob = \<lparr>u_id = 2, u_email = ''bob@example.com'', u_hashed_password = ''$2b$12$bbbb'',
          u_created_at = 110, u_updated_at = 110\<rparr>"

definition gifts :: wishlist_collection where
  "gifts = \<lparr>c_id = 1, c_user_id = 1, c_name = ''Gifts'', c_description = None, c_color = None,
            c_is_default = True, c_created_at = 120, c_updated_at = 120\<rparr>"

definition books :: wishlist_collection where
  "books = \<lparr>c_id = 2, c_user_id = 1, c_name = ''Books'', c_description = None, c_color = None,
            c_is_default = False, c_created_at = 130, c_updated_at = 130\<rparr>"

definition tools :: wishlist_collection where
  "tools = \<lparr>c_id = 3, c_user_id = 2, c_name = ''Tools'', c_description = None, c_color = None,
            c_is_default = False, c_created_at = 140, c_updated_at = 140\<rparr>"

definition lamp :: wishlist_item where
  "lamp = \<lparr>i_id = 1, i_user_id = 1, i_collection_id = 1, i_title = ''Lamp'', i_product_url = None,
           i_initial_price = 1000, i_current_price = 1000, i_currency = ''USD'',
           i_created_at = 150, i_updated_at = 150\<rparr>"

definition drill :: wishlist_item where
  "drill = \<lparr>i_id = 2, i_user_id = 2, i_collection_id = 3, i_title = ''Drill'', i_product_url = None,
            i_initial_price = 5000, i_current_price = 5000, i_currency = ''USD'',
            i_created_at = 160, i_updated_at = 160\<rparr>"

definition sample_db :: db where
  "sample_db =
     \<lparr>users = [alice, bob],
      wishlist_collections = [gifts, books, tools],
      wishlist_items = [lamp, drill],
      price_history_rows =
        [\<lparr>ph_id = 1, ph_wishlist_item_id = 1, ph_price = 1000, ph_checked_at = 150\<rparr>,
         \<lparr>ph_id = 2, ph_wishlist_item_id = 2, ph_price = 5000, ph_checked_at = 160\<rparr>]\<rparr>"

lemmas sample_defs =
  sample_db_def alice_def bob_def gifts_def books_def tools_def lamp_def drill_def

section \<open>The invariants are kept by every request\<close>

lemma foldr_max_ge: "k \<in> set ks \<Longrightarrow> k \<le> foldr max ks (0::nat)"
  by (induction ks) auto

lemma next_id_fresh: "next_id ks \<notin> set ks"
  using foldr_max_ge [of "next_id ks" ks] by (auto simp: next_id_def)

lemma map_id_replace:
  "c_id c' = cid \<Longrightarrow> map c_id (map (\<lambda>c. if c_id c = cid then c' else c) cs) = map c_id cs"
  by (induction cs) auto

lemma map_id_unset: "map c_id (unset_defaults uid keep now cs) = map c_id cs"
  by (induction cs) (auto simp: unset_defaults_def)

lemma map_iid_replace:
  "i_id c' = cid \<Longrightarrow> map i_id (map (\<lambda>c. if i_id c = cid then c' else c) cs) = map i_id cs"
  by (induction cs) auto

lemma find_SomeD: "find P xs = Some x \<Longrightarrow> P x \<and> x \<in> set xs"
  by (induction xs) (auto split: if_splits)

lemma wf_create_collection: "wf_db s \<Longrightarrow> wf_db (snd (create_collection s u d now))"
  using next_id_fresh [of "map c_id (wishlist_collections s)"]
  by (auto simp: wf_db_def create_collection_def Let_def map_id_unset split: option.splits)

lemma owned_collection_id: "owned_collection s uid cid = Some c \<Longrightarrow> c_id c = cid \<and> c_user_id c = uid \<and> c \<in> set (wishlist_collections s)"
  by (auto simp: owned_collection_def dest: find_SomeD)

lemma apply_collection_update_id: "apply_collection_update d c = Some c' \<Longrightarrow> c_id c' = c_id c \<and> c_user_id c' = c_user_id c"
  by (auto simp: apply_collection_update_def split: if_splits)

lemma flush_collection_id: "c_id new = c_id old \<Longrightarrow> c_id (flush_collection now old new) = c_id old"
  by (simp add: flush_collection_def)

lemma update_collection_frame:
  "wishlist_items (snd (update_collection s u cid d now)) = wishlist_items s \<and>
   price_history_rows (snd (update_collection s u cid d now)) = price_history_rows s \<and>
   users (snd (update_collection s u cid d now)) = users s"
  by (simp add: update_collection_def Let_def split: option.splits)

lemma update_collection_ids:
  "map c_id (wishlist_collections (snd (update_collection s u cid d now))) =
   map c_id (wishlist_collections s)"
proof (cases "owned_collection s (u_id u) cid")
  case None
  then show ?thesis by (simp add: update_collection_def)
next
  case (Some c)
  then have c: "c_id c = cid" by (simp add: owned_collection_id)
  show ?thesis
  proof (cases "apply_collection_update d c")
    case None
    with Some show ?thesis by (simp add: update_collection_def Let_def)
  next
    case (Some c')
    then have "c_id (flush_collection now c c') = cid"
      using c apply_collection_update_id [OF Some] by (simp add: flush_collection_id)
    then show ?thesis
      using Some \<open>owned_collection s (u_id u) cid = Some c\<close>
      by (simp add: update_collection_def Let_def map_id_replace map_id_unset del: map_map)
  qed
qed

lemma wf_update_collection: "wf_db s \<Longrightarrow> wf_db (snd (update_collection s u cid d now))"
  by (simp add: wf_db_def update_collection_frame update_collection_ids)

lemma wf_set_default: "wf_db s \<Longrightarrow> wf_db (snd (set_default_collection s u cid now))"
  by (auto simp: wf_db_def set_default_collection_def Let_def map_id_unset map_id_replace
       simp del: map_map
       dest!: owned_collection_id split: option.splits)

lemma wf_delete_collection: "wf_db s \<Longrightarrow> wf_db (snd (delete_collection s u cid))"
  by (auto simp: wf_db_def delete_collection_def cascade_delete_collection_def collection_items_def Let_def distinct_map_filter
       split: option.splits)

lemma wf_create_item: "wf_db s \<Longrightarrow> wf_db (snd (create_wishlist_item s u d now dt))"
  using next_id_fresh [of "map i_id (wishlist_items s)"]
  by (auto simp: wf_db_def create_wishlist_item_def Let_def split: option.splits)

lemma find_item_id: "find_item s iid = Some i \<Longrightarrow> i_id i = iid \<and> i \<in> set (wishlist_items s)"
  by (auto simp: find_item_def dest: find_SomeD)

lemma apply_item_update_id: "apply_item_update d i = Some i' \<Longrightarrow> i_id i' = i_id i \<and> i_user_id i' = i_user_id i"
  by (auto simp: apply_item_update_def split: if_splits)

lemma flush_item_id: "i_id new = i_id old \<Longrightarrow> i_id (flush_item now old new) = i_id old"
  by (simp add: flush_item_def)

lemma update_item_frame:
  "wishlist_collections (snd (update_wishlist_item s u iid d now)) = wishlist_collections s \<and>
   price_history_rows (snd (update_wishlist_item s u iid d now)) = price_history_rows s \<and>
   users (snd (update_wishlist_item s u iid d now)) = users s"
  by (simp add: update_wishlist_item_def Let_def split: option.splits)

lemma update_item_ids:
  "map i_id (wishlist_items (snd (update_wishlist_item s u iid d now))) =
   map i_id (wishlist_items s)"
proof (cases "find_item s iid")
  case None
  then show ?thesis by (simp add: update_wishlist_item_def)
next
  case (Some i)
  then have i: "i_id i = iid" by (simp add: find_item_id)
  show ?thesis
  proof (cases "apply_item_update d i")
    case None
    with Some show ?thesis by (simp add: update_wishlist_item_def Let_def)
  next
    case (Some i')
    then have "i_id (flush_item now i i') = iid"
      using i apply_item_update_id [OF Some] by (simp add: flush_item_id)
    then show ?thesis
      using Some \<open>find_item s iid = Some i\<close>
      by (simp add: update_wishlist_item_def Let_def map_iid_replace del: map_map)
  qed
qed

lemma wf_update_item: "wf_db s \<Longrightarrow> wf_db (snd (update_wishlist_item s u iid d now))"
proof -
  have "i_id ` set (wishlist_items (snd (update_wishlist_item s u iid d now))) =
        i_id ` set (wishlist_items s)"
    using update_item_ids [of s u iid d now] by (metis list.set_map)
  then show "wf_db s \<Longrightarrow> wf_db (snd (update_wishlist_item s u iid d now))"
    using update_item_ids [of s u iid d now]
    by (simp add: wf_db_def update_item_frame)
qed

lemma wf_delete_item: "wf_db s \<Longrightarrow> wf_db (snd (delete_wishlist_item s u iid))"
  by (auto simp: wf_db_def delete_wishlist_item_def Let_def distinct_map_filter
       split: option.splits)

lemma wf_create_price: "wf_db s \<Longrightarrow> wf_db (snd (create_price_history_entry s u iid p now))"
  by (auto simp: wf_db_def create_price_history_entry_def create_price_history_entry_body_def owned_item_def Let_def
       dest!: find_SomeD split: option.splits sum.splits prod.splits)

lemma wf_register: "wf_db s \<Longrightarrow> wf_db (snd (register_user hp s e p now))"
  by (auto simp: wf_db_def register_user_def Let_def split: option.splits)

lemma wf_handle: "wf_db s \<Longrightarrow> wf_db (handle hp s now r)"
  by (cases r) (simp_all add: wf_create_collection wf_update_collection wf_set_default wf_delete_collection
      wf_create_item wf_update_item wf_delete_item wf_create_price wf_register)

lemma wf_empty: "wf_db empty_db"
  by (simp add: wf_db_def empty_db_def)

section \<open>Lists of rows with unique keys\<close>

lemma distinct_map_Cons_neq: "distinct (map f (x # xs)) \<Longrightarrow> y \<in> set xs \<Longrightarrow> f y \<noteq> f x"
proof
  assume d: "distinct (map f (x # xs))" and y: "y \<in> set xs" and e: "f y = f x"
  from y have "f y \<in> f ` set xs" by (rule imageI)
  with e have "f x \<in> set (map f xs)" by simp
  with d show False by simp
qed

lemma length_filter_map_le:
  "(\<And>x. x \<in> set xs \<Longrightarrow> P (f x) \<Longrightarrow> P x) \<Longrightarrow>
   length (filter P (map f xs)) \<le> length (filter P xs)"
  by (induction xs) auto

lemma length_filter_map_eq:
  "(\<And>x. x \<in> set xs \<Longrightarrow> P (f x) = P x) \<Longrightarrow>
   length (filter P (map f xs)) = length (filter P xs)"
  by (induction xs) auto

lemma filter_map_none:
  "(\<And>x. x \<in> set xs \<Longrightarrow> \<not> P (f x)) \<Longrightarrow> filter P (map f xs) = []"
  by (induction xs) simp_all

lemma filter_map_unchanged:
  "(\<And>x. x \<in> set xs \<Longrightarrow> P (f x) = P x) \<Longrightarrow> (\<And>x. x \<in> set xs \<Longrightarrow> P x \<Longrightarrow> f x = x) \<Longrightarrow>
   filter P (map f xs) = filter P xs"
  by (induction xs) simp_all

lemma replace_at_most_one:
  assumes "distinct (map k cs)" and "\<And>c. c \<in> set cs \<Longrightarrow> k c \<noteq> cid \<Longrightarrow> \<not> P c"
  shows "length (filter P (map (\<lambda>c. if k c = cid then c' else c) cs)) \<le> 1"
  using assms
proof (induction cs)
  case Nil
  then show ?case by simp
next
  case (Cons x xs)
  show ?case
  proof (cases "k x = cid")
    case True
    have ne: "k y \<noteq> cid" if "y \<in> set xs" for y
      using distinct_map_Cons_neq [OF Cons.prems(1) that] True by simp
    then have "map (\<lambda>c. if k c = cid then c' else c) xs = xs" by (simp add: map_idI)
    moreover have "filter P xs = []" using ne Cons.prems(2) by (simp add: filter_empty_conv)
    ultimately show ?thesis using True by simp
  next
    case False
    then have "\<not> P x" using Cons.prems(2) by simp
    moreover have "length (filter P (map (\<lambda>c. if k c = cid then c' else c) xs)) \<le> 1"
      using Cons.prems by (intro Cons.IH) simp_all
    ultimately show ?thesis using False by simp
  qed
qed

lemma remove_at_most_one:
  assumes "distinct (map k cs)"
  shows "length (filter P cs) \<le> Suc (length (filter P (filter (\<lambda>c. k c \<noteq> cid) cs)))"
  using assms
proof (induction cs)
  case Nil
  then show ?case by simp
next
  case (Cons x xs)
  show ?case
  proof (cases "k x = cid")
    case True
    have "k y \<noteq> cid" if "y \<in> set xs" for y
      using distinct_map_Cons_neq [OF Cons.prems(1) that] True by simp
    then have "filter (\<lambda>c. k c \<noteq> cid) xs = xs" by (simp add: filter_id_conv)
    then show ?thesis using True by simp
  next
    case False
    then show ?thesis using Cons by simp
  qed
qed

lemma distinct_key_eq:
  "distinct (map k cs) \<Longrightarrow> x \<in> set cs \<Longrightarrow> y \<in> set cs \<Longrightarrow> k x = k y \<Longrightarrow> x = y"
  by (simp add: distinct_map inj_on_def)

section \<open>Deleting a collection\<close>

lemma delete_last_collection:
  "owned_collection s (u_id u) cid = Some c \<Longrightarrow> collection_count s (u_id u) \<le> 1 \<Longrightarrow>
   delete_collection s u cid = (Inl ConflictError, s)"
  by (simp add: delete_collection_def)

lemma entries_of_survivor:
  assumes "wf_db s" "i \<in> set (wishlist_items s)" "i_collection_id i \<noteq> cid"
  shows "entries_of (cascade_delete_collection cid s) (i_id i) = entries_of s (i_id i)"
proof -
  have "i_id i \<notin> i_id ` set (collection_items s cid)"
  proof
    assume "i_id i \<in> i_id ` set (collection_items s cid)"
    then obtain j where j: "j \<in> set (wishlist_items s)" "i_collection_id j = cid" "i_id j = i_id i"
      by (auto simp: collection_items_def)
    with assms have "j = i" by (auto simp: wf_db_def dest: distinct_key_eq)
    with j assms show False by simp
  qed
  then have "\<And>p. ph_wishlist_item_id p = i_id i \<Longrightarrow> ph_wishlist_item_id p \<notin> set (map i_id (collection_items s cid))"
    by simp
  then show ?thesis
    by (auto simp: entries_of_def cascade_delete_collection_def Let_def intro: filter_cong)
qed

text \<open>
  Claim C5. For a collection the caller owns: when it is the caller's only collection the
  delete is refused with \<open>ConflictError\<close> and the store is unchanged; when the caller
  owns more than one, the delete succeeds, exactly the rows of that collection leave the
  collections table, exactly its items leave the items table, the price history of each of
  its items is gone, and the users, the other collections, the other items and the price
  history of every other item are as before.
\<close>

theorem delete_collection_cascade:
  assumes "wf_db s" and "owned_collection s (u_id u) cid = Some c"
  shows "(collection_count s (u_id u) \<le> 1 \<longrightarrow> delete_collection s u cid = (Inl ConflictError, s)) \<and>
         (1 < collection_count s (u_id u) \<longrightarrow>
            fst (delete_collection s u cid) = Inr () \<and>
            (let s' = snd (delete_collection s u cid) in
               users s' = users s \<and>
               wishlist_collections s' = filter (\<lambda>c. c_id c \<noteq> cid) (wishlist_collections s) \<and>
               wishlist_items s' = filter (\<lambda>i. i_collection_id i \<noteq> cid) (wishlist_items s) \<and>
               (\<forall>i \<in> set (wishlist_items s). i_collection_id i = cid \<longrightarrow> entries_of s' (i_id i) = []) \<and>
               (\<forall>i \<in> set (wishlist_items s). i_collection_id i \<noteq> cid \<longrightarrow>
                    entries_of s' (i_id i) = entries_of s (i_id i))))"
proof -
  have gone: "\<forall>i \<in> set (wishlist_items s). i_collection_id i = cid \<longrightarrow>
                entries_of (cascade_delete_collection cid s) (i_id i) = []"
    by (auto simp: entries_of_def cascade_delete_collection_def collection_items_def Let_def filter_empty_conv)
  show ?thesis
    using assms gone entries_of_survivor [OF assms(1)]
    by (simp add: delete_collection_def Let_def) (simp add: cascade_delete_collection_def Let_def)
qed

theorem delete_collection_cascade_witness:
  "wf_db sample_db \<and> owned_collection sample_db (u_id alice) 1 = Some gifts \<and>
   1 < collection_count sample_db (u_id alice) \<and>
   fst (delete_collection sample_db alice 1) = Inr () \<and>
   wishlist_collections (snd (delete_collection sample_db alice 1)) = [books, tools] \<and>
   wishlist_items (snd (delete_collection sample_db alice 1)) = [drill] \<and>
   entries_of (snd (delete_collection sample_db alice 1)) (i_id lamp) = [] \<and>
   entries_of (snd (delete_collection sample_db alice 1)) (i_id drill) = entries_of sample_db (i_id drill)"
proof -
  have h1: "wf_db sample_db" by (simp add: wf_db_def sample_defs)
  have h2: "owned_collection sample_db (u_id alice) 1 = Some gifts"
    by (simp add: owned_collection_def sample_defs)
  have h3: "1 < collection_count sample_db (u_id alice)"
    by (simp add: collection_count_def sample_defs)
  have m: "lamp \<in> set (wishlist_items sample_db)" "drill \<in> set (wishlist_items sample_db)"
          "i_collection_id lamp = 1" "i_collection_id drill \<noteq> 1"
    by (simp_all add: sample_defs)
  have cs: "filter (\<lambda>c. c_id c \<noteq> 1) (wishlist_collections sample_db) = [books, tools]"
    by (simp add: sample_defs)
  have its: "filter (\<lambda>i. i_collection_id i \<noteq> 1) (wishlist_items sample_db) = [drill]"
    by (simp add: sample_defs)
  from delete_collection_cascade [OF h1 h2] h3
  have t: "fst (delete_collection sample_db alice 1) = Inr ()"
    "wishlist_collections (snd (delete_collection sample_db alice 1)) =
       filter (\<lambda>c. c_id c \<noteq> 1) (wishlist_collections sample_db)"
    "wishlist_items (snd (delete_collection sample_db alice 1)) =
       filter (\<lambda>i. i_collection_id i \<noteq> 1) (wishlist_items sample_db)"
    "\<forall>i \<in> set (wishlist_items sample_db). i_collection_id i = 1 \<longrightarrow>
        entries_of (snd (delete_collection sample_db alice 1)) (i_id i) = []"
    "\<forall>i \<in> set (wishlist_items sample_db). i_collection_id i \<noteq> 1 \<longrightarrow>
        entries_of (snd (delete_collection sample_db alice 1)) (i_id i) = entries_of sample_db (i_id i)"
    unfolding Let_def by blast+
  from t(4) m(1,3) have e1: "entries_of (snd (delete_collection sample_db alice 1)) (i_id lamp) = []"
    by blast
  from t(5) m(2,4) have e2: "entries_of (snd (delete_collection sample_db alice 1)) (i_id drill) =
      entries_of sample_db (i_id drill)"
    by blast
  show ?thesis using h1 h2 h3 t(1) t(2) t(3) cs its e1 e2 by simp
qed

section \<open>Creating an item\<close>




section \<open>Updating an item\<close>

lemma find_replace:
  "find (\<lambda>i. i_id i = iid) xs = Some x \<Longrightarrow> i_id x' = iid \<Longrightarrow>
   find (\<lambda>i. i_id i = iid) (map (\<lambda>i. if i_id i = iid then x' else i) xs) = Some x'"
  by (induction xs) (auto split: if_splits)

lemma apply_item_update_frame:
  assumes "apply_item_update d item = Some upd"
  shows "(iu_title d = Unset \<longrightarrow> i_title upd = i_title item) \<and>
         (iu_product_url d = Unset \<longrightarrow> i_product_url upd = i_product_url item) \<and>
         (iu_current_price d = Unset \<longrightarrow> i_current_price upd = i_current_price item) \<and>
         (iu_collection_id d = Unset \<longrightarrow> i_collection_id upd = i_collection_id item) \<and>
         i_initial_price upd = i_initial_price item \<and> i_currency upd = i_currency item \<and>
         i_id upd = i_id item \<and> i_user_id upd = i_user_id item \<and>
         i_created_at upd = i_created_at item"
  using assms by (auto simp: apply_item_update_def split: if_splits)

lemma flush_item_frame:
  "i_title (flush_item now old new) = i_title new \<and>
   i_product_url (flush_item now old new) = i_product_url new \<and>
   i_current_price (flush_item now old new) = i_current_price new \<and>
   i_collection_id (flush_item now old new) = i_collection_id new \<and>
   i_initial_price (flush_item now old new) = i_initial_price new \<and>
   i_currency (flush_item now old new) = i_currency new \<and>
   i_id (flush_item now old new) = i_id new \<and>
   i_user_id (flush_item now old new) = i_user_id new \<and>
   i_created_at (flush_item now old new) = i_created_at new"
  by (simp add: flush_item_def)

text \<open>
  Claim C10. A successful update of an item keeps the value of every payload field the
  request left out (title, product URL, current price, collection), never changes the
  initial price, the currency, the id, the owner or the creation time, inserts no price
  history entry (the price history table is unchanged, also when the current price is
  updated), and leaves the collections, the users and every other item alone. The
  bookkeeping column \<open>updated_at\<close> is the one the store itself refreshes on a write.
\<close>

theorem update_item_frame_property:
  assumes "find_item s iid = Some item"
      and "update_wishlist_item s u iid d now = (Inr item', s')"
  shows "(iu_title d = Unset \<longrightarrow> i_title item' = i_title item) \<and>
         (iu_product_url d = Unset \<longrightarrow> i_product_url item' = i_product_url item) \<and>
         (iu_current_price d = Unset \<longrightarrow> i_current_price item' = i_current_price item) \<and>
         (iu_collection_id d = Unset \<longrightarrow> i_collection_id item' = i_collection_id item) \<and>
         i_initial_price item' = i_initial_price item \<and>
         i_currency item' = i_currency item \<and>
         i_id item' = i_id item \<and> i_user_id item' = i_user_id item \<and>
         i_created_at item' = i_created_at item \<and>
         price_history_rows s' = price_history_rows s \<and>
         wishlist_collections s' = wishlist_collections s \<and>
         users s' = users s \<and>
         find_item s' iid = Some item' \<and>
         (\<forall>j \<in> set (wishlist_items s). i_id j \<noteq> iid \<longrightarrow> j \<in> set (wishlist_items s'))"
proof -
  from assms obtain upd where upd: "apply_item_update d item = Some upd"
    and item': "item' = flush_item now item upd"
    and s': "s' = s\<lparr>wishlist_items := map (\<lambda>i. if i_id i = iid then item' else i) (wishlist_items s)\<rparr>"
    by (auto simp: update_wishlist_item_def Let_def split: if_splits option.splits)
  have id: "i_id item = iid" using assms(1) by (simp add: find_item_id)
  have fr: "i_id item' = iid"
    using upd item' id apply_item_update_frame [OF upd] flush_item_frame [of now item upd] by simp
  have found: "find_item s' iid = Some item'"
    using assms(1) fr s' find_replace [of iid "wishlist_items s" item item']
    by (simp add: find_item_def)
  have others: "\<forall>j \<in> set (wishlist_items s). i_id j \<noteq> iid \<longrightarrow> j \<in> set (wishlist_items s')"
    using s' by auto
  show ?thesis
    using apply_item_update_frame [OF upd] flush_item_frame [of now item upd] found others id
    by (simp add: item' [symmetric]) (simp add: s')
qed

theorem update_item_frame_property_witness:
  "find_item sample_db 1 = Some lamp \<and>
   fst (update_wishlist_item sample_db alice 1
          \<lparr>iu_title = Unset, iu_product_url = Unset, iu_current_price = Given (Some 800),
           iu_collection_id = Unset\<rparr> 400) =
     Inr (lamp\<lparr>i_current_price := 800, i_updated_at := 400\<rparr>) \<and>
   i_initial_price (lamp\<lparr>i_current_price := 800, i_updated_at := 400\<rparr>) = 1000 \<and>
   price_history_rows (snd (update_wishlist_item sample_db alice 1
          \<lparr>iu_title = Unset, iu_product_url = Unset, iu_current_price = Given (Some 800),
           iu_collection_id = Unset\<rparr> 400)) = price_history_rows sample_db"
proof -
  define d where "d = \<lparr>iu_title = Unset, iu_product_url = Unset,
     iu_current_price = Given (Some (800::int)), iu_collection_id = Unset\<rparr>"
  have h1: "find_item sample_db 1 = Some lamp" by (simp add: find_item_def sample_defs)
  have ev: "update_wishlist_item sample_db alice 1 d 400 =
     (Inr (lamp\<lparr>i_current_price := 800, i_updated_at := 400\<rparr>),
      snd (update_wishlist_item sample_db alice 1 d 400))"
    by (simp add: update_wishlist_item_def find_item_def apply_item_update_def flush_item_def
          sample_defs d_def Let_def)
  from update_item_frame_property [OF h1 ev]
  have "i_initial_price (lamp\<lparr>i_current_price := 800, i_updated_at := 400\<rparr>) = i_initial_price lamp"
    and "price_history_rows (snd (update_wishlist_item sample_db alice 1 d 400)) =
         price_history_rows sample_db"
    by blast+
  moreover have "fst (update_wishlist_item sample_db alice 1 d 400) =
      Inr (lamp\<lparr>i_current_price := 800, i_updated_at := 400\<rparr>)"
    using ev by (metis fst_conv)
  moreover have "i_initial_price lamp = 1000" by (simp add: lamp_def)
  moreover note h1
  ultimately show ?thesis unfolding d_def by simp
qed

section \<open>The default flag and the number of collections\<close>

lemma length_filter_filter_le: "length (filter P (filter Q xs)) \<le> length (filter P xs)"
  by (induction xs) auto

lemma unset_defaults_none_left:
  "filter (\<lambda>c. c_user_id c = uid \<and> c_is_default c) (unset_defaults uid None now cs) = []"
  unfolding unset_defaults_def by (rule filter_map_none) simp

lemma unset_defaults_keep_only:
  assumes "c \<in> set (unset_defaults uid (Some k) now cs)" "c_user_id c = uid" "c_is_default c"
  shows "c_id c = k"
proof -
  from assms(1) obtain c0 where "c0 \<in> set cs"
    and c: "c = (if c_user_id c0 = uid \<and> c_is_default c0 \<and> Some (c_id c0) \<noteq> Some k
                 then c0\<lparr>c_is_default := False, c_updated_at := now\<rparr> else c0)"
    unfolding unset_defaults_def by (auto simp only: set_map image_iff)
  show ?thesis
  proof (rule ccontr)
    assume "c_id c \<noteq> k"
    with c assms(2,3) show False by (simp split: if_splits)
  qed
qed

lemma unset_defaults_shrinks:
  "length (filter (\<lambda>c. c_user_id c = uid' \<and> c_is_default c) (unset_defaults uid keep now cs)) \<le>
   length (filter (\<lambda>c. c_user_id c = uid' \<and> c_is_default c) cs)"
  unfolding unset_defaults_def by (rule length_filter_map_le) (simp split: if_splits)

lemma unset_defaults_count:
  "length (filter (\<lambda>c. c_user_id c = uid') (unset_defaults uid keep now cs)) =
   length (filter (\<lambda>c. c_user_id c = uid') cs)"
  unfolding unset_defaults_def by (rule length_filter_map_eq) simp

lemma unset_defaults_other_user:
  "uid' \<noteq> uid \<Longrightarrow>
   filter (\<lambda>c. c_user_id c = uid') (unset_defaults uid keep now cs) =
   filter (\<lambda>c. c_user_id c = uid') cs"
  unfolding unset_defaults_def by (rule filter_map_unchanged) simp_all

lemma unset_defaults_origin:
  assumes "c \<in> set (unset_defaults uid keep now cs)"
  shows "\<exists>c0 \<in> set cs. c_id c0 = c_id c \<and> c_user_id c0 = c_user_id c"
proof -
  from assms obtain c0 where c0: "c0 \<in> set cs"
    and c: "c = (if c_user_id c0 = uid \<and> c_is_default c0 \<and> Some (c_id c0) \<noteq> keep
                 then c0\<lparr>c_is_default := False, c_updated_at := now\<rparr> else c0)"
    unfolding unset_defaults_def by (auto simp only: set_map image_iff)
  from c have "c_id c0 = c_id c \<and> c_user_id c0 = c_user_id c" by (simp split: if_splits)
  with c0 show ?thesis by blast
qed

lemma owner_of_key:
  assumes "wf_db s" "owned_collection s uid cid = Some c"
      and "x \<in> set (unset_defaults uid0 keep now (wishlist_collections s))" "c_id x = cid"
  shows "c_user_id x = uid"
proof -
  from assms(3) obtain c0 where c0: "c0 \<in> set (wishlist_collections s)" "c_id c0 = c_id x"
      "c_user_id c0 = c_user_id x"
    using unset_defaults_origin by blast
  from assms(2) have c: "c \<in> set (wishlist_collections s)" "c_id c = cid" "c_user_id c = uid"
    by (simp_all add: owned_collection_id)
  from assms(1) have "distinct (map c_id (wishlist_collections s))" by (simp add: wf_db_def)
  from distinct_key_eq [OF this c0(1) c(1)] c0(2) c(2) assms(4) have "c0 = c" by simp
  with c0(3) c(3) show ?thesis by simp
qed

lemma owner_of_key_plain:
  assumes "wf_db s" "owned_collection s uid cid = Some c"
      and "x \<in> set (wishlist_collections s)" "c_id x = cid"
  shows "x = c"
proof -
  from assms(2) have c: "c \<in> set (wishlist_collections s)" "c_id c = cid"
    by (simp_all add: owned_collection_id)
  from assms(1) have "distinct (map c_id (wishlist_collections s))" by (simp add: wf_db_def)
  from distinct_key_eq [OF this assms(3) c(1)] c(2) assms(4) show ?thesis by simp
qed

lemma replace_row_defaults:
  assumes d: "distinct (map c_id cs)"
      and own: "c_user_id c' = uid"
      and others: "\<And>x. x \<in> set cs \<Longrightarrow> c_id x \<noteq> cid \<Longrightarrow> c_user_id x = uid \<Longrightarrow> \<not> c_is_default x"
      and before: "length (filter (\<lambda>c. c_user_id c = uid' \<and> c_is_default c) cs) \<le> 1"
  shows "length (filter (\<lambda>c. c_user_id c = uid' \<and> c_is_default c)
           (map (\<lambda>c. if c_id c = cid then c' else c) cs)) \<le> 1"
proof (cases "uid' = uid")
  case True
  show ?thesis
    unfolding True
    by (rule replace_at_most_one [OF d]) (use others in blast)
next
  case False
  have "length (filter (\<lambda>c. c_user_id c = uid' \<and> c_is_default c)
           (map (\<lambda>c. if c_id c = cid then c' else c) cs)) \<le>
        length (filter (\<lambda>c. c_user_id c = uid' \<and> c_is_default c) cs)"
    by (rule length_filter_map_le) (use False own in \<open>simp split: if_splits\<close>)
  with before show ?thesis by simp
qed

lemma replace_row_count:
  assumes "\<And>x. x \<in> set cs \<Longrightarrow> c_id x = cid \<Longrightarrow> c_user_id x = c_user_id c'"
  shows "length (filter (\<lambda>c. c_user_id c = uid') (map (\<lambda>c. if c_id c = cid then c' else c) cs)) =
         length (filter (\<lambda>c. c_user_id c = uid') cs)"
  by (rule length_filter_map_eq) (use assms in simp)

lemma set_default_result:
  assumes "owned_collection s (u_id u) cid = Some c"
  shows "set_default_collection s u cid now =
           (Inr (c\<lparr>c_is_default := True, c_updated_at := now\<rparr>),
            s\<lparr>wishlist_collections :=
                 map (\<lambda>x. if c_id x = cid then c\<lparr>c_is_default := True, c_updated_at := now\<rparr> else x)
                     (unset_defaults (u_id u) None now (wishlist_collections s))\<rparr>)"
  using assms by (simp add: set_default_collection_def Let_def)

lemma set_default_refused:
  "owned_collection s (u_id u) cid = None \<Longrightarrow>
   set_default_collection s u cid now = (Inl ResourceNotFoundError, s)"
  by (simp add: set_default_collection_def)

lemma unset_none_no_default:
  assumes "x \<in> set (unset_defaults uid None now cs)" "c_user_id x = uid"
  shows "\<not> c_is_default x"
proof
  assume "c_is_default x"
  with assms have "x \<in> set (filter (\<lambda>c. c_user_id c = uid \<and> c_is_default c) (unset_defaults uid None now cs))"
    by simp
  then show False by (simp only: unset_defaults_none_left) simp
qed

lemma defaults_set_default:
  assumes wf: "wf_db s" and inv: "length (default_collections s uid') \<le> 1"
  shows "length (default_collections (snd (set_default_collection s u cid now)) uid') \<le> 1"
proof (cases "owned_collection s (u_id u) cid")
  case None
  with inv show ?thesis by (simp add: set_default_refused)
next
  case (Some c)
  have own: "c_user_id (c\<lparr>c_is_default := True, c_updated_at := now\<rparr>) = u_id u"
    using Some by (simp add: owned_collection_id)
  have d: "distinct (map c_id (unset_defaults (u_id u) None now (wishlist_collections s)))"
    using wf by (simp add: map_id_unset wf_db_def)
  have b: "length (filter (\<lambda>c. c_user_id c = uid' \<and> c_is_default c)
             (unset_defaults (u_id u) None now (wishlist_collections s))) \<le> 1"
    using unset_defaults_shrinks [of uid' "u_id u" None now "wishlist_collections s"] inv
    by (simp add: default_collections_def)
  have w: "wishlist_collections (snd (set_default_collection s u cid now)) =
      map (\<lambda>x. if c_id x = cid then c\<lparr>c_is_default := True, c_updated_at := now\<rparr> else x)
          (unset_defaults (u_id u) None now (wishlist_collections s))"
    by (simp add: set_default_result [OF Some])
  show ?thesis
    unfolding default_collections_def w
    by (rule replace_row_defaults [OF d own _ b]) (use unset_none_no_default in blast)
qed

lemma count_set_default:
  assumes wf: "wf_db s"
  shows "collection_count (snd (set_default_collection s u cid now)) uid' = collection_count s uid'"
proof (cases "owned_collection s (u_id u) cid")
  case None
  then show ?thesis by (simp add: set_default_refused)
next
  case (Some c)
  have own: "c_user_id (c\<lparr>c_is_default := True, c_updated_at := now\<rparr>) = u_id u"
    using Some by (simp add: owned_collection_id)
  have "length (filter (\<lambda>c. c_user_id c = uid')
          (map (\<lambda>x. if c_id x = cid then c\<lparr>c_is_default := True, c_updated_at := now\<rparr> else x)
               (unset_defaults (u_id u) None now (wishlist_collections s)))) =
        length (filter (\<lambda>c. c_user_id c = uid')
               (unset_defaults (u_id u) None now (wishlist_collections s)))"
    by (rule replace_row_count) (use owner_of_key [OF wf Some] own in simp)
  then show ?thesis
    unfolding set_default_result [OF Some] collection_count_def
    by (simp add: unset_defaults_count)
qed

lemma update_collection_cases:
  obtains (refused) "snd (update_collection s u cid d now) = s"
  | (written) c upd where "owned_collection s (u_id u) cid = Some c"
      "apply_collection_update d c = Some upd"
      "snd (update_collection s u cid d now) =
         s\<lparr>wishlist_collections :=
             map (\<lambda>x. if c_id x = cid then flush_collection now c upd else x)
               (if cu_is_default d = Given (Some True)
                then unset_defaults (u_id u) (Some cid) now (wishlist_collections s)
                else wishlist_collections s)\<rparr>"
proof (cases "owned_collection s (u_id u) cid")
  case None
  then have "snd (update_collection s u cid d now) = s" by (simp add: update_collection_def)
  then show ?thesis by (rule refused)
next
  case (Some c)
  show ?thesis
  proof (cases "apply_collection_update d c")
    case None
    with Some have "snd (update_collection s u cid d now) = s"
      by (simp add: update_collection_def Let_def)
    then show ?thesis by (rule refused)
  next
    case (Some upd)
    show ?thesis
    proof (cases "snd (update_collection s u cid d now) = s")
      case True
      then show ?thesis by (rule refused)
    next
      case False
      with Some \<open>owned_collection s (u_id u) cid = Some c\<close>
      have w: "snd (update_collection s u cid d now) =
         s\<lparr>wishlist_collections :=
             map (\<lambda>x. if c_id x = cid then flush_collection now c upd else x)
               (if cu_is_default d = Given (Some True)
                then unset_defaults (u_id u) (Some cid) now (wishlist_collections s)
                else wishlist_collections s)\<rparr>"
        by (simp add: update_collection_def Let_def split: if_splits)
      show ?thesis by (rule written [OF \<open>owned_collection s (u_id u) cid = Some c\<close> Some w])
    qed
  qed
qed

lemma flush_collection_fields:
  "c_user_id (flush_collection now old new) = c_user_id new \<and>
   c_is_default (flush_collection now old new) = c_is_default new \<and>
   c_id (flush_collection now old new) = c_id new"
  by (simp add: flush_collection_def)

lemma apply_collection_update_default:
  "apply_collection_update d c = Some upd \<Longrightarrow> cu_is_default d \<noteq> Given (Some True) \<Longrightarrow>
   c_is_default upd \<Longrightarrow> c_is_default c"
  by (cases "cu_is_default d")
     (auto simp: apply_collection_update_def split: if_splits option.splits)

lemma defaults_update_collection:
  assumes wf: "wf_db s" and inv: "length (default_collections s uid') \<le> 1"
  shows "length (default_collections (snd (update_collection s u cid d now)) uid') \<le> 1"
proof (cases rule: update_collection_cases [of s u cid d now])
  case refused
  with inv show ?thesis by simp
next
  case (written c upd)
  let ?c' = "flush_collection now c upd"
  have own: "c_user_id ?c' = u_id u" and id: "c_id ?c' = cid"
    using written(1,2) apply_collection_update_id [OF written(2)]
    by (simp_all add: flush_collection_fields owned_collection_id)
  show ?thesis
  proof (cases "cu_is_default d = Given (Some True)")
    case True
    have d: "distinct (map c_id (unset_defaults (u_id u) (Some cid) now (wishlist_collections s)))"
      using wf by (simp add: map_id_unset wf_db_def)
    have b: "length (filter (\<lambda>c. c_user_id c = uid' \<and> c_is_default c)
               (unset_defaults (u_id u) (Some cid) now (wishlist_collections s))) \<le> 1"
      using unset_defaults_shrinks [of uid' "u_id u" "Some cid" now "wishlist_collections s"] inv
      by (simp add: default_collections_def)
    have w: "wishlist_collections (snd (update_collection s u cid d now)) =
        map (\<lambda>x. if c_id x = cid then ?c' else x)
          (unset_defaults (u_id u) (Some cid) now (wishlist_collections s))"
      using True by (simp add: written(3))
    show ?thesis
      unfolding default_collections_def w
      by (rule replace_row_defaults [OF d own _ b]) (use unset_defaults_keep_only in blast)
  next
    case False
    have "length (filter (\<lambda>c. c_user_id c = uid' \<and> c_is_default c)
            (map (\<lambda>x. if c_id x = cid then ?c' else x) (wishlist_collections s))) \<le>
          length (filter (\<lambda>c. c_user_id c = uid' \<and> c_is_default c) (wishlist_collections s))"
    proof (rule length_filter_map_le)
      fix x
      assume x: "x \<in> set (wishlist_collections s)"
        and p: "c_user_id (if c_id x = cid then ?c' else x) = uid' \<and>
                c_is_default (if c_id x = cid then ?c' else x)"
      show "c_user_id x = uid' \<and> c_is_default x"
      proof (cases "c_id x = cid")
        case True
        then have "x = c" using owner_of_key_plain [OF wf written(1) x] by simp
        moreover have "c_user_id c = u_id u" using written(1) by (simp add: owned_collection_id)
        moreover have "c_is_default c"
          using p True apply_collection_update_default [OF written(2) False]
          by (simp add: flush_collection_fields)
        ultimately show ?thesis using p True own by simp
      next
        case False
        with p show ?thesis by simp
      qed
    qed
    with inv show ?thesis
      unfolding written(3) default_collections_def using False by simp
  qed
qed

lemma count_update_collection:
  assumes wf: "wf_db s"
  shows "collection_count (snd (update_collection s u cid d now)) uid' = collection_count s uid'"
proof (cases rule: update_collection_cases [of s u cid d now])
  case refused
  then show ?thesis by simp
next
  case (written c upd)
  let ?c' = "flush_collection now c upd"
  let ?cs = "if cu_is_default d = Given (Some True)
             then unset_defaults (u_id u) (Some cid) now (wishlist_collections s)
             else wishlist_collections s"
  have own: "c_user_id ?c' = u_id u"
    using written(1,2) apply_collection_update_id [OF written(2)]
    by (simp add: flush_collection_fields owned_collection_id)
  have cu: "c_user_id c = u_id u" using written(1) by (simp add: owned_collection_id)
  have "length (filter (\<lambda>c. c_user_id c = uid') (map (\<lambda>x. if c_id x = cid then ?c' else x) ?cs)) =
        length (filter (\<lambda>c. c_user_id c = uid') ?cs)"
  proof (rule replace_row_count)
    fix x assume x: "x \<in> set ?cs" "c_id x = cid"
    show "c_user_id x = c_user_id ?c'"
    proof (cases "cu_is_default d = Given (Some True)")
      case True
      with x owner_of_key [OF wf written(1), of x "u_id u" "Some cid" now] own show ?thesis by simp
    next
      case False
      with x owner_of_key_plain [OF wf written(1), of x] own cu show ?thesis by simp
    qed
  qed
  also have "\<dots> = length (filter (\<lambda>c. c_user_id c = uid') (wishlist_collections s))"
    by (simp add: unset_defaults_count)
  finally show ?thesis
    unfolding written(3) collection_count_def by simp
qed

lemma replace_exactly_one:
  assumes "distinct (map k cs)" and "\<exists>x \<in> set cs. k x = cid"
      and "\<And>c. c \<in> set cs \<Longrightarrow> k c \<noteq> cid \<Longrightarrow> \<not> P c" and "P c'"
  shows "filter P (map (\<lambda>c. if k c = cid then c' else c) cs) = [c']"
  using assms(1-3)
proof (induction cs)
  case Nil
  then show ?case by simp
next
  case (Cons x xs)
  show ?case
  proof (cases "k x = cid")
    case True
    have ne: "k y \<noteq> cid" if "y \<in> set xs" for y
      using distinct_map_Cons_neq [OF Cons.prems(1) that] True by simp
    then have "map (\<lambda>c. if k c = cid then c' else c) xs = xs" by (simp add: map_idI)
    moreover have "filter P xs = []" using ne Cons.prems(3) by (simp add: filter_empty_conv)
    ultimately show ?thesis using True assms(4) by simp
  next
    case False
    then have "\<not> P x" using Cons.prems(3) by simp
    moreover have "filter P (map (\<lambda>c. if k c = cid then c' else c) xs) = [c']"
      using Cons.prems False by (intro Cons.IH) auto
    ultimately show ?thesis using False by simp
  qed
qed

lemma unset_defaults_member:
  assumes "c \<in> set cs"
  shows "\<exists>x \<in> set (unset_defaults uid keep now cs). c_id x = c_id c"
proof -
  have "c_id c \<in> set (map c_id (unset_defaults uid keep now cs))"
    using assms by (simp only: map_id_unset) simp
  then show ?thesis by (auto simp only: set_map image_iff)
qed

lemma create_collection_cases:
  obtains (refused) "snd (create_collection s u d now) = s"
  | (written) c where "c_user_id c = u_id u" "c_is_default c = (cc_is_default d = Some True)"
      "wishlist_collections (snd (create_collection s u d now)) =
         (if cc_is_default d = Some True
          then unset_defaults (u_id u) None now (wishlist_collections s)
          else wishlist_collections s) @ [c]"
proof (cases "find (\<lambda>c. c_user_id c = u_id u \<and> c_name c = cc_name d) (wishlist_collections s)")
  case (Some a)
  then have "snd (create_collection s u d now) = s" by (simp add: create_collection_def)
  then show ?thesis by (rule refused)
next
  case None
  show ?thesis
    by (rule written [of "\<lparr>c_id = next_id (map c_id (if cc_is_default d = Some True
                    then unset_defaults (u_id u) None now (wishlist_collections s)
                    else wishlist_collections s)),
                            c_user_id = u_id u,
                            c_name = cc_name d,
                            c_description = cc_description d,
                            c_color = cc_color d,
                            c_is_default = (cc_is_default d = Some True),
                            c_created_at = now,
                            c_updated_at = now\<rparr>"])
       (simp_all add: create_collection_def None Let_def)
qed

lemma defaults_create_collection:
  assumes inv: "length (default_collections s uid') \<le> 1"
  shows "length (default_collections (snd (create_collection s u d now)) uid') \<le> 1"
proof (cases rule: create_collection_cases [of s u d now])
  case refused
  with inv show ?thesis by simp
next
  case (written c)
  show ?thesis
  proof (cases "cc_is_default d = Some True")
    case True
    show ?thesis
    proof (cases "uid' = u_id u")
      case True
      with \<open>cc_is_default d = Some True\<close> written show ?thesis
        by (simp add: default_collections_def unset_defaults_none_left)
    next
      case False
      with \<open>cc_is_default d = Some True\<close> written inv
        unset_defaults_shrinks [of uid' "u_id u" None now "wishlist_collections s"]
      show ?thesis by (simp add: default_collections_def)
    qed
  next
    case False
    with written inv show ?thesis by (simp add: default_collections_def)
  qed
qed

lemma count_create_collection:
  "collection_count s uid' \<le> collection_count (snd (create_collection s u d now)) uid'"
proof (cases rule: create_collection_cases [of s u d now])
  case refused
  then show ?thesis by simp
next
  case (written c)
  then show ?thesis by (simp add: collection_count_def unset_defaults_count)
qed

lemma delete_collection_cases:
  obtains (refused) "snd (delete_collection s u cid) = s"
  | (deleted) c where "owned_collection s (u_id u) cid = Some c" "1 < collection_count s (u_id u)"
      "wishlist_collections (snd (delete_collection s u cid)) =
         filter (\<lambda>c. c_id c \<noteq> cid) (wishlist_collections s)"
proof (cases "owned_collection s (u_id u) cid")
  case None
  then have "snd (delete_collection s u cid) = s" by (simp add: delete_collection_def)
  then show ?thesis by (rule refused)
next
  case (Some c)
  show ?thesis
  proof (cases "collection_count s (u_id u) \<le> 1")
    case True
    with Some have "snd (delete_collection s u cid) = s" by (simp add: delete_collection_def)
    then show ?thesis by (rule refused)
  next
    case False
    with Some have "wishlist_collections (snd (delete_collection s u cid)) =
         filter (\<lambda>c. c_id c \<noteq> cid) (wishlist_collections s)"
      by (simp add: delete_collection_def cascade_delete_collection_def Let_def)
    with Some False show ?thesis by (intro deleted) simp_all
  qed
qed

lemma defaults_delete_collection:
  assumes inv: "length (default_collections s uid') \<le> 1"
  shows "length (default_collections (snd (delete_collection s u cid)) uid') \<le> 1"
proof (cases rule: delete_collection_cases [of s u cid])
  case refused
  with inv show ?thesis by simp
next
  case (deleted c)
  have "length (filter (\<lambda>c. c_user_id c = uid' \<and> c_is_default c)
          (filter (\<lambda>c. c_id c \<noteq> cid) (wishlist_collections s))) \<le>
        length (filter (\<lambda>c. c_user_id c = uid' \<and> c_is_default c) (wishlist_collections s))"
    by (rule length_filter_filter_le)
  with inv deleted(3) show ?thesis by (simp only: default_collections_def)
qed

lemma count_delete_collection:
  assumes wf: "wf_db s" and inv: "1 \<le> collection_count s uid'"
  shows "1 \<le> collection_count (snd (delete_collection s u cid)) uid'"
proof (cases rule: delete_collection_cases [of s u cid])
  case refused
  with inv show ?thesis by simp
next
  case (deleted c)
  have d: "distinct (map c_id (wishlist_collections s))" using wf by (simp add: wf_db_def)
  show ?thesis
  proof (cases "uid' = u_id u")
    case True
    from remove_at_most_one [OF d, of "\<lambda>c. c_user_id c = uid'" cid] deleted(2) True
    show ?thesis unfolding collection_count_def deleted(3) by simp
  next
    case False
    have "filter (\<lambda>c. c_user_id c = uid') (filter (\<lambda>c. c_id c \<noteq> cid) (wishlist_collections s)) =
          filter (\<lambda>c. c_user_id c = uid') (wishlist_collections s)"
    proof -
      have "c_id x \<noteq> cid" if "x \<in> set (wishlist_collections s)" "c_user_id x = uid'" for x
      proof
        assume "c_id x = cid"
        then have "x = c" using owner_of_key_plain [OF wf deleted(1) that(1)] by simp
        with that(2) False deleted(1) show False by (simp add: owned_collection_id)
      qed
      then show ?thesis by (auto simp: filter_filter intro: filter_cong)
    qed
    with inv show ?thesis unfolding collection_count_def deleted(3) by simp
  qed
qed

lemma collections_untouched:
  "wishlist_collections (snd (register_user hp s e p now)) = wishlist_collections s"
  "wishlist_collections (snd (create_wishlist_item s u ic now dt)) = wishlist_collections s"
  "wishlist_collections (snd (delete_wishlist_item s u iid)) = wishlist_collections s"
  "wishlist_collections (snd (create_price_history_entry s u iid pr now)) = wishlist_collections s"
  by (simp_all add: register_user_def create_wishlist_item_def delete_wishlist_item_def
        create_price_history_entry_def create_price_history_entry_body_def Let_def
        split: option.splits)

lemma same_collections:
  assumes "wishlist_collections s' = wishlist_collections s"
  shows "default_collections s' uid = default_collections s uid"
    and "collection_count s' uid = collection_count s uid"
  using assms by (simp_all add: default_collections_def collection_count_def)

lemma handle_other_requests:
  "wishlist_collections (handle hp s now (Register e p)) = wishlist_collections s"
  "wishlist_collections (handle hp s now (CreateItem u ic dt)) = wishlist_collections s"
  "wishlist_collections (handle hp s now (UpdateItem u iid iu)) = wishlist_collections s"
  "wishlist_collections (handle hp s now (DeleteItem u iid)) = wishlist_collections s"
  "wishlist_collections (handle hp s now (CreatePriceHistory u iid pr)) = wishlist_collections s"
  by (simp_all add: collections_untouched update_item_frame)

lemma defaults_handle:
  assumes "wf_db s" "length (default_collections s uid) \<le> 1"
  shows "length (default_collections (handle hp s now r) uid) \<le> 1"
proof (cases r)
  case (Register e p)
  show ?thesis unfolding Register same_collections(1) [OF handle_other_requests(1)] by (rule assms(2))
next
  case (CreateCollection u d)
  show ?thesis unfolding CreateCollection handle.simps by (rule defaults_create_collection [OF assms(2)])
next
  case (UpdateCollection u cid d)
  show ?thesis unfolding UpdateCollection handle.simps by (rule defaults_update_collection [OF assms])
next
  case (DeleteCollection u cid)
  show ?thesis unfolding DeleteCollection handle.simps by (rule defaults_delete_collection [OF assms(2)])
next
  case (SetDefault u cid)
  show ?thesis unfolding SetDefault handle.simps by (rule defaults_set_default [OF assms])
next
  case (CreateItem u ic dt)
  show ?thesis unfolding CreateItem same_collections(1) [OF handle_other_requests(2)] by (rule assms(2))
next
  case (UpdateItem u iid iu)
  show ?thesis unfolding UpdateItem same_collections(1) [OF handle_other_requests(3)] by (rule assms(2))
next
  case (DeleteItem u iid)
  show ?thesis unfolding DeleteItem same_collections(1) [OF handle_other_requests(4)] by (rule assms(2))
next
  case (CreatePriceHistory u iid pr)
  show ?thesis unfolding CreatePriceHistory same_collections(1) [OF handle_other_requests(5)] by (rule assms(2))
qed

lemma count_handle:
  assumes "wf_db s" "1 \<le> collection_count s uid"
  shows "1 \<le> collection_count (handle hp s now r) uid"
proof (cases r)
  case (Register e p)
  show ?thesis unfolding Register same_collections(2) [OF handle_other_requests(1)] by (rule assms(2))
next
  case (CreateCollection u d)
  show ?thesis unfolding CreateCollection handle.simps
    by (rule order_trans [OF assms(2) count_create_collection])
next
  case (UpdateCollection u cid d)
  show ?thesis unfolding UpdateCollection handle.simps count_update_collection [OF assms(1)]
    by (rule assms(2))
next
  case (DeleteCollection u cid)
  show ?thesis unfolding DeleteCollection handle.simps by (rule count_delete_collection [OF assms])
next
  case (SetDefault u cid)
  show ?thesis unfolding SetDefault handle.simps count_set_default [OF assms(1)] by (rule assms(2))
next
  case (CreateItem u ic dt)
  show ?thesis unfolding CreateItem same_collections(2) [OF handle_other_requests(2)] by (rule assms(2))
next
  case (UpdateItem u iid iu)
  show ?thesis unfolding UpdateItem same_collections(2) [OF handle_other_requests(3)] by (rule assms(2))
next
  case (DeleteItem u iid)
  show ?thesis unfolding DeleteItem same_collections(2) [OF handle_other_requests(4)] by (rule assms(2))
next
  case (CreatePriceHistory u iid pr)
  show ?thesis unfolding CreatePriceHistory same_collections(2) [OF handle_other_requests(5)] by (rule assms(2))
qed

lemma set_default_post:
  assumes wf: "wf_db s" and ok: "set_default_collection s u cid now = (Inr c', s')"
  shows "default_collections s' (u_id u) = [c'] \<and> c_id c' = cid \<and> c_is_default c' \<and>
         (\<forall>uid'. uid' \<noteq> u_id u \<longrightarrow> collections_of s' uid' = collections_of s uid')"
proof (cases "owned_collection s (u_id u) cid")
  case None
  with ok show ?thesis by (simp add: set_default_refused)
next
  case (Some c)
  let ?cs1 = "unset_defaults (u_id u) None now (wishlist_collections s)"
  from ok have c': "c' = c\<lparr>c_is_default := True, c_updated_at := now\<rparr>"
    and s'0: "s' = s\<lparr>wishlist_collections := map (\<lambda>x. if c_id x = cid then c' else x) ?cs1\<rparr>"
    by (auto simp: set_default_result [OF Some])
  from s'0 have s': "wishlist_collections s' = map (\<lambda>x. if c_id x = cid then c' else x) ?cs1"
    by simp
  have c: "c \<in> set (wishlist_collections s)" "c_id c = cid" "c_user_id c = u_id u"
    using Some by (simp_all add: owned_collection_id)
  have d: "distinct (map c_id ?cs1)" using wf by (simp add: map_id_unset wf_db_def)
  have ex: "\<exists>x \<in> set ?cs1. c_id x = cid" using unset_defaults_member [OF c(1)] c(2) by simp
  have p: "c_user_id c' = u_id u \<and> c_is_default c'" using c' c by simp
  have one: "filter (\<lambda>c. c_user_id c = u_id u \<and> c_is_default c)
               (map (\<lambda>x. if c_id x = cid then c' else x) ?cs1) = [c']"
    by (rule replace_exactly_one [where P = "\<lambda>c. c_user_id c = u_id u \<and> c_is_default c", OF d ex])
       (use unset_none_no_default p in blast)+
  have others: "collections_of s' uid' = collections_of s uid'" if "uid' \<noteq> u_id u" for uid'
  proof -
    have "filter (\<lambda>c. c_user_id c = uid') (map (\<lambda>x. if c_id x = cid then c' else x) ?cs1) =
          filter (\<lambda>c. c_user_id c = uid') ?cs1"
    proof (rule filter_map_unchanged)
      fix x assume x: "x \<in> set ?cs1"
      show "(c_user_id (if c_id x = cid then c' else x) = uid') = (c_user_id x = uid')"
        using owner_of_key [OF wf Some x] p by simp
      assume "c_user_id x = uid'"
      then show "(if c_id x = cid then c' else x) = x"
        using owner_of_key [OF wf Some x] that by auto
    qed
    then show ?thesis
      using that by (simp add: collections_of_def s' unset_defaults_other_user)
  qed
  from one others c' c show ?thesis by (simp add: default_collections_def s')
qed

text \<open>
  Claim C2, as the code has it. No collection is a default in the empty store, and no
  request makes a user's number of default collections exceed one. A successful
  set-default on a collection leaves that collection as the owner's only default (it has
  the flag, every other collection of the owner has lost it) and leaves the collections of
  every other user as they were. That the owner keeps a default from then on is not
  promised: the flag lives on the collection and goes with it.
\<close>

theorem default_flag_exclusive:
  assumes "wf_db s"
  shows "default_collections empty_db uid = [] \<and>
         (length (default_collections s uid) \<le> 1 \<longrightarrow>
            length (default_collections (handle hp s now r) uid) \<le> 1) \<and>
         (\<forall>c' s'. set_default_collection s u cid now = (Inr c', s') \<longrightarrow>
            default_collections s' (u_id u) = [c'] \<and> c_id c' = cid \<and> c_is_default c' \<and>
            (\<forall>uid'. uid' \<noteq> u_id u \<longrightarrow> collections_of s' uid' = collections_of s uid'))"
proof -
  have e: "default_collections empty_db uid = []"
    by (simp add: default_collections_def empty_db_def)
  have i: "length (default_collections s uid) \<le> 1 \<longrightarrow>
           length (default_collections (handle hp s now r) uid) \<le> 1"
    using defaults_handle [OF assms] by blast
  have p: "\<forall>c' s'. set_default_collection s u cid now = (Inr c', s') \<longrightarrow>
            default_collections s' (u_id u) = [c'] \<and> c_id c' = cid \<and> c_is_default c' \<and>
            (\<forall>uid'. uid' \<noteq> u_id u \<longrightarrow> collections_of s' uid' = collections_of s uid')"
    using set_default_post [OF assms] by blast
  from e i p show ?thesis by blast
qed

theorem default_flag_exclusive_witness:
  "wf_db sample_db \<and> length (default_collections sample_db 1) \<le> 1 \<and>
   length (default_collections (handle (\<lambda>p. p) sample_db 200 (SetDefault alice 2)) 1) \<le> 1 \<and>
   set_default_collection sample_db alice 2 200 =
     (Inr (books\<lparr>c_is_default := True, c_updated_at := 200\<rparr>),
      snd (set_default_collection sample_db alice 2 200)) \<and>
   default_collections (snd (set_default_collection sample_db alice 2 200)) (u_id alice) =
     [books\<lparr>c_is_default := True, c_updated_at := 200\<rparr>] \<and>
   2 \<noteq> u_id alice \<and>
   collections_of (snd (set_default_collection sample_db alice 2 200)) 2 = collections_of sample_db 2"
proof -
  have h: "wf_db sample_db" by (simp add: wf_db_def sample_defs)
  have l: "length (default_collections sample_db 1) \<le> 1"
    by (simp add: default_collections_def sample_defs)
  have o: "owned_collection sample_db (u_id alice) 2 = Some books"
    by (simp add: owned_collection_def sample_defs)
  have ev: "set_default_collection sample_db alice 2 200 =
     (Inr (books\<lparr>c_is_default := True, c_updated_at := 200\<rparr>),
      snd (set_default_collection sample_db alice 2 200))"
    by (simp add: set_default_result [OF o])
  have n: "2 \<noteq> u_id alice" by (simp add: alice_def)
  note t = default_flag_exclusive [OF h, where uid = 1 and hp = "\<lambda>p. p" and now = 200
      and r = "SetDefault alice 2" and u = alice and cid = 2]
  from t l have a: "length (default_collections (handle (\<lambda>p. p) sample_db 200 (SetDefault alice 2)) 1) \<le> 1"
    by blast
  from t ev have b: "default_collections (snd (set_default_collection sample_db alice 2 200)) (u_id alice) =
     [books\<lparr>c_is_default := True, c_updated_at := 200\<rparr>]"
    and c: "\<forall>uid'. uid' \<noteq> u_id alice \<longrightarrow>
       collections_of (snd (set_default_collection sample_db alice 2 200)) uid' = collections_of sample_db uid'"
    by blast+
  from c n have c2: "collections_of (snd (set_default_collection sample_db alice 2 200)) 2 = collections_of sample_db 2"
    by blast
  from h l a ev b n c2 show ?thesis by blast
qed

text \<open>
  Claim C2 as stated says that a user has exactly one default once a set-default has
  occurred. Alice makes "Books" her default and then deletes it (she still owns "Gifts"):
  both requests succeed and she is left with one collection and no default.
\<close>

theorem default_lost_counterexample:
  "fst (set_default_collection sample_db alice 2 200) =
     Inr (books\<lparr>c_is_default := True, c_updated_at := 200\<rparr>) \<and>
   fst (delete_collection (snd (set_default_collection sample_db alice 2 200)) alice 2) = Inr () \<and>
   collections_of (snd (delete_collection (snd (set_default_collection sample_db alice 2 200)) alice 2))
       (u_id alice) = [gifts\<lparr>c_is_default := False, c_updated_at := 200\<rparr>] \<and>
   default_collections
     (snd (delete_collection (snd (set_default_collection sample_db alice 2 200)) alice 2))
     (u_id alice) = []"
  by (simp add: set_default_collection_def delete_collection_def owned_collection_def
        unset_defaults_def collection_count_def cascade_delete_collection_def collection_items_def
        default_collections_def collections_of_def sample_defs Let_def)

text \<open>
  Claim C4, as the code has it. Registration writes no collection. A user who owns at
  least one collection still owns at least one after any request, and a delete of the
  user's only collection is refused with \<open>ConflictError\<close>, the store unchanged.
\<close>

theorem collection_count_kept:
  assumes "wf_db s"
  shows "(1 \<le> collection_count s uid \<longrightarrow> 1 \<le> collection_count (handle hp s now r) uid) \<and>
         (owned_collection s (u_id u) cid \<noteq> None \<and> collection_count s (u_id u) \<le> 1 \<longrightarrow>
            delete_collection s u cid = (Inl ConflictError, s)) \<and>
         wishlist_collections (snd (register_user hp s email password now)) = wishlist_collections s"
proof -
  have a: "1 \<le> collection_count s uid \<longrightarrow> 1 \<le> collection_count (handle hp s now r) uid"
    using count_handle [OF assms] by blast
  have b: "owned_collection s (u_id u) cid \<noteq> None \<and> collection_count s (u_id u) \<le> 1 \<longrightarrow>
            delete_collection s u cid = (Inl ConflictError, s)"
    using delete_last_collection by blast
  from a b collections_untouched(1) show ?thesis by blast
qed

theorem collection_count_kept_witness:
  "wf_db sample_db \<and> 1 \<le> collection_count sample_db 2 \<and>
   1 \<le> collection_count (handle (\<lambda>p. p) sample_db 200 (DeleteCollection bob 3)) 2 \<and>
   owned_collection sample_db (u_id bob) 3 \<noteq> None \<and> collection_count sample_db (u_id bob) \<le> 1 \<and>
   delete_collection sample_db bob 3 = (Inl ConflictError, sample_db)"
proof -
  have h: "wf_db sample_db" by (simp add: wf_db_def sample_defs)
  have l: "1 \<le> collection_count sample_db 2" by (simp add: collection_count_def sample_defs)
  have o: "owned_collection sample_db (u_id bob) 3 \<noteq> None"
    by (simp add: owned_collection_def sample_defs)
  have c: "collection_count sample_db (u_id bob) \<le> 1" by (simp add: collection_count_def sample_defs)
  note t = collection_count_kept [OF h, where uid = 2 and hp = "\<lambda>p. p" and now = 200
      and r = "DeleteCollection bob 3" and u = bob and cid = 3]
  from t l have a: "1 \<le> collection_count (handle (\<lambda>p. p) sample_db 200 (DeleteCollection bob 3)) 2"
    by blast
  from t o c have b: "delete_collection sample_db bob 3 = (Inl ConflictError, sample_db)"
    by blast
  from h l a o c b show ?thesis by blast
qed

text \<open>
  Claim C4 as stated says that a user owns a collection immediately after registration.
  Registering the first user of an empty store succeeds and leaves that user with none.
\<close>

theorem registration_creates_no_collection:
  "fst (register_user (\<lambda>p. ''$2b$'' @ p) empty_db ''a@x.com'' ''password123'' 0) =
     Inr \<lparr>u_id = 1, u_email = ''a@x.com'', u_hashed_password = ''$2b$password123'',
          u_created_at = 0, u_updated_at = 0\<rparr> \<and>
   collection_count (snd (register_user (\<lambda>p. ''$2b$'' @ p) empty_db ''a@x.com'' ''password123'' 0)) 1 = 0"
  by (simp add: register_user_def get_password_validation_errors_def is_letter_def is_digit_def
        empty_db_def next_id_def collection_count_def Let_def)


section \<open>Session tokens\<close>

lemma map_of_filter_key:
  "map_of (filter (\<lambda>kv. fst kv \<noteq> k) d) k' = (if k' = k then None else map_of d k')"
  by (induction d) auto

lemma map_of_dict_update:
  "map_of (dict_update d k v) k' = (if k' = k then Some v else map_of d k')"
  by (simp add: dict_update_def map_of_filter_key)

lemma issued_claims:
  "map_of (dict_update (dict_update [(''sub'', JStr subj)] ''exp'' (JInt e)) ''iat'' (JInt i)) ''sub'' = Some (JStr subj) \<and>
   map_of (dict_update (dict_update [(''sub'', JStr subj)] ''exp'' (JInt e)) ''iat'' (JInt i)) ''exp'' = Some (JInt e) \<and>
   map_of (dict_update (dict_update [(''sub'', JStr subj)] ''exp'' (JInt e)) ''iat'' (JInt i)) ''iat'' = Some (JInt i)"
  by (simp add: map_of_dict_update)

lemma issued_token_decode:
  "jwt_decode mac key now (create_access_token mac key minutes now1 now2 [(''sub'', JStr subj)] None) =
     (if now1 + 60 * minutes < now then None
      else Some (dict_update (dict_update [(''sub'', JStr subj)] ''exp'' (JInt (now1 + 60 * minutes)))
                   ''iat'' (JInt now2)))"
  using issued_claims [of subj "now1 + 60 * minutes" now2]
  by (simp add: jwt_decode_def create_access_token_def jwt_encode_def signature_valid_def
        claims_well_typed_def claims_expired_def Let_def)

text \<open>
  Claim C7. A token issued for a subject with the configured lifetime verifies, and
  \<open>decode_token\<close> returns exactly that subject, at every time up to its expiry, so also
  immediately after issuance; once the current second is later than the expiry, \<open>is_token_expired\<close>
  is true and \<open>decode_token\<close> returns nothing; and any token that fails to verify
  counts as expired. Times are whole seconds, as the token carries them.
\<close>

theorem token_round_trip:
  "(now \<le> now1 + 60 * minutes \<longrightarrow>
      verify_token mac key now
        (create_access_token mac key minutes now1 now2 [(''sub'', JStr subj)] None) \<noteq> None \<and>
      decode_token mac key now
        (create_access_token mac key minutes now1 now2 [(''sub'', JStr subj)] None) = Some subj) \<and>
   (now1 + 60 * minutes < now \<longrightarrow>
      is_token_expired mac key now tz
        (create_access_token mac key minutes now1 now2 [(''sub'', JStr subj)] None) \<and>
      decode_token mac key now
        (create_access_token mac key minutes now1 now2 [(''sub'', JStr subj)] None) = None) \<and>
   (verify_token mac key now t = None \<longrightarrow> is_token_expired mac key now tz t)"
  using issued_claims [of subj "now1 + 60 * minutes" now2]
  by (simp add: verify_token_def decode_token_def is_token_expired_def issued_token_decode)

theorem token_round_trip_witness:
  "(1000::int) \<le> 1000 + 60 * 30 \<and>
   decode_token sample_mac ''secret'' 1000
     (create_access_token sample_mac ''secret'' 30 1000 1000 [(''sub'', JStr ''alice@example.com'')] None)
     = Some ''alice@example.com'' \<and>
   (1000::int) + 60 * 30 < 2801 \<and>
   is_token_expired sample_mac ''secret'' 2801 0
     (create_access_token sample_mac ''secret'' 30 1000 1000 [(''sub'', JStr ''alice@example.com'')] None) \<and>
   decode_token sample_mac ''secret'' 2801
     (create_access_token sample_mac ''secret'' 30 1000 1000 [(''sub'', JStr ''alice@example.com'')] None)
     = None \<and>
   verify_token sample_mac ''secret'' 5 (Malformed ''garbage'') = None \<and>
   is_token_expired sample_mac ''secret'' 5 0 (Malformed ''garbage'')"
proof -
  have v: "verify_token sample_mac ''secret'' 5 (Malformed ''garbage'') = None"
    by (simp add: verify_token_def jwt_decode_def)
  show ?thesis
    using token_round_trip [of 1000 1000 30 sample_mac "''secret''" 1000 "''alice@example.com''" 0 "Malformed ''garbage''"]
      token_round_trip [of 2801 1000 30 sample_mac "''secret''" 1000 "''alice@example.com''" 0 "Malformed ''garbage''"]
      token_round_trip [of 5 1000 30 sample_mac "''secret''" 1000 "''alice@example.com''" 0 "Malformed ''garbage''"]
      v
    by simp
qed

section \<open>The authorization guard\<close>





section \<open>Password verification\<close>

text \<open>
  Claim C9, as the code has it. \<open>verify_password\<close> has no exception handling of its own:
  for a stored hash the context does not identify as bcrypt it raises
  \<open>UnknownHashError\<close>, which \<open>login_user\<close> turns into status 500; for an identified
  hash it returns whatever the bcrypt handler returns.
\<close>

theorem verify_password_unidentified_hash:
  "(\<not> bcrypt_identify h \<longrightarrow>
      verify_password bcrypt_verify p h = Inl UnknownHashError \<and>
      (user_by_email s email = Some u \<and> u_hashed_password u = h \<longrightarrow>
         login_user bcrypt_verify mac key minutes s email p now1 now2 = Inl (HTTPException 500))) \<and>
   (bcrypt_identify h \<longrightarrow> verify_password bcrypt_verify p h = bcrypt_verify p h)"
  by (simp add: verify_password_def pwd_context_verify_def login_user_def user_by_email_def)

theorem verify_password_unidentified_hash_witness:
  "\<not> bcrypt_identify ''not-a-hash'' \<and>
   verify_password (\<lambda>p h. Inr (h = ''$2b$'' @ p)) ''password123'' ''not-a-hash'' = Inl UnknownHashError \<and>
   user_by_email (sample_db\<lparr>users := [alice\<lparr>u_hashed_password := ''not-a-hash''\<rparr>]\<rparr>) ''alice@example.com''
     = Some (alice\<lparr>u_hashed_password := ''not-a-hash''\<rparr>) \<and>
   login_user (\<lambda>p h. Inr (h = ''$2b$'' @ p)) sample_mac ''secret'' 30
     (sample_db\<lparr>users := [alice\<lparr>u_hashed_password := ''not-a-hash''\<rparr>]\<rparr>)
     ''alice@example.com'' ''password123'' 1000 1000 = Inl (HTTPException 500) \<and>
   bcrypt_identify ''$2b$password123'' \<and>
   verify_password (\<lambda>p h. Inr (h = ''$2b$'' @ p)) ''password123'' ''$2b$password123'' = Inr True"
proof -
  have n: "\<not> bcrypt_identify ''not-a-hash''" by (simp add: bcrypt_identify_def)
  have y: "bcrypt_identify ''$2b$password123''" by (simp add: bcrypt_identify_def)
  have ue: "user_by_email (sample_db\<lparr>users := [alice\<lparr>u_hashed_password := ''not-a-hash''\<rparr>]\<rparr>)
      ''alice@example.com'' = Some (alice\<lparr>u_hashed_password := ''not-a-hash''\<rparr>)"
    by (simp add: user_by_email_def alice_def)
  have hp: "u_hashed_password (alice\<lparr>u_hashed_password := ''not-a-hash''\<rparr>) = ''not-a-hash''"
    by simp
  note t1 = verify_password_unidentified_hash
    [of "''not-a-hash''" "\<lambda>p h. Inr (h = ''$2b$'' @ p)" "''password123''"
        "sample_db\<lparr>users := [alice\<lparr>u_hashed_password := ''not-a-hash''\<rparr>]\<rparr>" "''alice@example.com''"
        "alice\<lparr>u_hashed_password := ''not-a-hash''\<rparr>" sample_mac "''secret''" 30 1000 1000]
  note t2 = verify_password_unidentified_hash
    [of "''$2b$password123''" "\<lambda>p h. Inr (h = ''$2b$'' @ p)" "''password123''"
        sample_db "''alice@example.com''" alice sample_mac "''secret''" 30 1000 1000]
  from t1 n have a: "verify_password (\<lambda>p h. Inr (h = ''$2b$'' @ p)) ''password123'' ''not-a-hash'' = Inl UnknownHashError"
    by blast
  from t1 n ue hp have b: "login_user (\<lambda>p h. Inr (h = ''$2b$'' @ p)) sample_mac ''secret'' 30
     (sample_db\<lparr>users := [alice\<lparr>u_hashed_password := ''not-a-hash''\<rparr>]\<rparr>)
     ''alice@example.com'' ''password123'' 1000 1000 = Inl (HTTPException 500)"
    by blast
  from t2 y have c: "verify_password (\<lambda>p h. Inr (h = ''$2b$'' @ p)) ''password123'' ''$2b$password123'' = Inr True"
    by simp
  from n a ue b y c show ?thesis by blast
qed

text \<open>
  Claim C9 as stated says that a malformed hash gives \<open>False\<close> and never an exception.
  For the stored string "not-a-hash" the call raises.
\<close>

theorem malformed_hash_counterexample:
  "verify_password (\<lambda>p h. Inr False) ''password123'' ''not-a-hash'' = Inl UnknownHashError"
  by (simp add: verify_password_def pwd_context_verify_def bcrypt_identify_def)

section \<open>Requests on a resource of another user\<close>

text \<open>
  What each handler answers when the resource exists and belongs to somebody else, in any
  store with unique keys: the collection handlers raise \<open>ResourceNotFoundError\<close>, the
  item handlers of app/routes/wishlist.py raise \<open>AuthorizationError\<close>, the handlers of
  app/routes/price\_history.py raise \<open>HTTPException\<close> 500. The store is unchanged in
  every case.
\<close>

lemma find_None_conj:
  assumes "distinct (map k xs)" "find (\<lambda>x. k x = a) xs = Some y" "\<not> Q y"
  shows "find (\<lambda>x. k x = a \<and> Q x) xs = None"
proof -
  from assms(2) have y: "y \<in> set xs" "k y = a"
    using find_SomeD [of "\<lambda>x. k x = a" xs y] by simp_all
  have "\<not> (k x = a \<and> Q x)" if "x \<in> set xs" for x
  proof
    assume "k x = a \<and> Q x"
    with distinct_key_eq [OF assms(1) that y(1)] y(2) have "x = y" "Q x" by simp_all
    with assms(3) show False by simp
  qed
  then show ?thesis by (simp add: find_None_iff)
qed

lemma not_found_is_500:
  assumes "owned_item s (u_id u) iid = None"
  shows "get_price_history s u iid = Inl (HTTPException 500)"
    and "create_price_history_entry s u iid price now = (Inl (HTTPException 500), s)"
  using assms
  by (simp_all add: get_price_history_def get_price_history_body_def
        create_price_history_entry_def create_price_history_entry_body_def)

lemma other_owner_item_refused:
  assumes "wf_db s" "find_item s iid = Some item" "i_user_id item \<noteq> u_id u"
  shows "get_wishlist_item s u iid = Inl AuthorizationError"
    and "update_wishlist_item s u iid d now = (Inl AuthorizationError, s)"
    and "delete_wishlist_item s u iid = (Inl AuthorizationError, s)"
    and "get_item_price_history s u iid = Inl AuthorizationError"
    and "get_price_history s u iid = Inl (HTTPException 500)"
    and "create_price_history_entry s u iid price now = (Inl (HTTPException 500), s)"
proof -
  from assms(1) have d: "distinct (map i_id (wishlist_items s))" by (simp add: wf_db_def)
  have "owned_item s (u_id u) iid = None"
    unfolding owned_item_def
    by (rule find_None_conj [OF d assms(2) [unfolded find_item_def]]) (rule assms(3))
  then show "get_price_history s u iid = Inl (HTTPException 500)"
    and "create_price_history_entry s u iid price now = (Inl (HTTPException 500), s)"
    by (rule not_found_is_500)+
  from assms(2,3) show "get_wishlist_item s u iid = Inl AuthorizationError"
    and "update_wishlist_item s u iid d now = (Inl AuthorizationError, s)"
    and "delete_wishlist_item s u iid = (Inl AuthorizationError, s)"
    and "get_item_price_history s u iid = Inl AuthorizationError"
    by (simp_all add: get_wishlist_item_def update_wishlist_item_def delete_wishlist_item_def
          get_item_price_history_def)
qed

lemma other_owner_collection_refused:
  assumes "wf_db s" "find (\<lambda>c. c_id c = cid) (wishlist_collections s) = Some c"
      and "c_user_id c \<noteq> u_id u"
  shows "get_collection s u cid = Inl ResourceNotFoundError"
    and "update_collection s u cid d now = (Inl ResourceNotFoundError, s)"
    and "delete_collection s u cid = (Inl ResourceNotFoundError, s)"
    and "set_default_collection s u cid now = (Inl ResourceNotFoundError, s)"
proof -
  from assms(1) have d: "distinct (map c_id (wishlist_collections s))" by (simp add: wf_db_def)
  have "owned_collection s (u_id u) cid = None"
    unfolding owned_collection_def
    by (rule find_None_conj [OF d assms(2)]) (rule assms(3))
  then show "get_collection s u cid = Inl ResourceNotFoundError"
    and "update_collection s u cid d now = (Inl ResourceNotFoundError, s)"
    and "delete_collection s u cid = (Inl ResourceNotFoundError, s)"
    and "set_default_collection s u cid now = (Inl ResourceNotFoundError, s)"
    by (simp_all add: get_collection_def update_collection_def delete_collection_def
          set_default_collection_def)
qed

text \<open>
  Claim C3 says both price-history handlers fail with \<open>ResourceNotFoundError\<close> (404) when
  the item is missing or not the caller's. For an item that does not exist both handlers of
  app/routes/price\_history.py raise \<open>HTTPException\<close> 500: the
  \<open>ResourceNotFoundError\<close> raised in the body is caught by \<open>except Exception\<close>.
  No entry is inserted.
\<close>

theorem price_history_missing_item_is_500:
  "owned_item sample_db (u_id alice) 99 = None \<and>
   get_price_history sample_db alice 99 = Inl (HTTPException 500) \<and>
   create_price_history_entry sample_db alice 99 4500 300 = (Inl (HTTPException 500), sample_db) \<and>
   status_code (HTTPException 500) \<noteq> status_code ResourceNotFoundError"
  by (simp add: get_price_history_def get_price_history_body_def create_price_history_entry_def
        create_price_history_entry_body_def owned_item_def sample_defs)


end
